theory Spec2Isabelle
  imports Complex_Main "HOL-Library.Word" "HOL-Library.AList" "HOL-Library.Log_Nat"
begin

section \<open>JavaScript strings and numbers\<close>

text \<open>
  A JavaScript string is a sequence of UTF-16 code units, so \<open>length\<close> counts what
  \<open>String.prototype.length\<close> counts. \<open>js\<close> writes an ASCII literal as such a string.
\<close>

type_synonym jschar = "16 word"
type_synonym jsstring = "jschar list"

definition js :: "string \<Rightarrow> jsstring" where
  "js s = map of_char s"

text \<open>
  The class \<open>\s\<close> of a regular expression and the characters \<open>String.prototype.trim\<close>
  strips are the same set: ECMAScript's WhiteSpace and LineTerminator code points.
\<close>

definition isSpace :: "jschar \<Rightarrow> bool" where
  "isSpace c =
     (c \<in> {0x09, 0x0A, 0x0B, 0x0C, 0x0D, 0x20, 0xA0, 0x1680, 0x2028, 0x2029, 0x202F,
            0x205F, 0x3000, 0xFEFF}
      \<or> (0x2000 \<le> c \<and> c \<le> 0x200A))"

text \<open>The class \<open>\w\<close>: \<open>[A-Za-z0-9_]\<close>.\<close>

definition isWordChar :: "jschar \<Rightarrow> bool" where
  "isWordChar c =
     ((0x41 \<le> c \<and> c \<le> 0x5A) \<or> (0x61 \<le> c \<and> c \<le> 0x7A)
      \<or> (0x30 \<le> c \<and> c \<le> 0x39) \<or> c = 0x5F)"

text \<open>The class \<open>[.!?]\<close>.\<close>

definition isTerminal :: "jschar \<Rightarrow> bool" where
  "isTerminal c = (c = 0x2E \<or> c = 0x21 \<or> c = 0x3F)"

definition trim :: "jsstring \<Rightarrow> jsstring" where
  "trim s = rev (dropWhile isSpace (rev (dropWhile isSpace s)))"

text \<open>\<open>s.substring(a, b)\<close> for \<open>0 \<le> a \<le> b\<close>; an end past the string stops at its end.\<close>

definition substring :: "jsstring \<Rightarrow> nat \<Rightarrow> nat \<Rightarrow> jsstring" where
  "substring s a b = take (b - a) (drop a s)"

text \<open>
  \<open>s.split(/\s+/)\<close>: the pieces between the maximal runs of white space. A run at the
  start or at the end of the string leaves an empty piece there, and the empty string
  splits into one empty piece. \<open>inRun\<close> says that the previous character was white space.
\<close>

fun splitSpaces :: "bool \<Rightarrow> jsstring \<Rightarrow> jsstring \<Rightarrow> jsstring list" where
  "splitSpaces inRun piece [] = [piece]"
| "splitSpaces inRun piece (c # cs) =
     (if isSpace c then
        (if inRun then splitSpaces True piece cs else piece # splitSpaces True [] cs)
      else splitSpaces False (piece @ [c]) cs)"

definition split_ws :: "jsstring \<Rightarrow> jsstring list" where
  "split_ws s = splitSpaces False [] s"

text \<open>\<open>parts.join(' ')\<close>.\<close>

fun join_space :: "jsstring list \<Rightarrow> jsstring" where
  "join_space [] = []"
| "join_space [p] = p"
| "join_space (p # q # ps) = p @ [0x20] @ join_space (q # ps)"

text \<open>
  A JavaScript number as far as the code looks at it: \<open>NaN\<close>, on which every comparison
  is false, or a finite value. The comparisons with the constants \<open>0.5\<close>, \<open>1.0\<close> and
  \<open>2.0\<close> are exact on doubles, so a real number stands for the finite value.
\<close>

datatype number = NaN | Num real

fun num_lt :: "number \<Rightarrow> real \<Rightarrow> bool" where
  "num_lt NaN y = False"
| "num_lt (Num x) y = (x < y)"

fun num_gt :: "number \<Rightarrow> real \<Rightarrow> bool" where
  "num_gt NaN y = False"
| "num_gt (Num x) y = (x > y)"

text \<open>\<open>parseFloat\<close> of a value that is a number already gives the number back.\<close>

definition parseFloat :: "number \<Rightarrow> number" where
  "parseFloat v = v"

section \<open>Errors\<close>

text \<open>
  \<open>Error m\<close> is a plain \<open>new Error(m)\<close>; the other constructors are the subclasses
  of \<open>Error\<close> that speech-controller.js declares, with the arguments of their constructors.
\<close>

datatype error =
    Error string
  | SpeechNotSupportedError
  | VoiceNotAvailableError "jsstring option"
  | TextProcessingError string "error option"
  | SessionLimitError nat
  | SessionNotFoundError jsstring

section \<open>AudioSession\<close>

record AudioSession =
  sessionId :: jsstring
  contentId :: jsstring
  pageUrl :: jsstring
  tabId :: int
  text' :: jsstring
  words :: "jsstring list"
  totalWords :: int
  currentPosition :: int
  isPlaying :: bool
  isPaused :: bool
  speed :: real
  volume :: real
  createdAt :: int
  lastActiveAt :: int

text \<open>
  The object the constructor destructures. \<open>None\<close> is a property that is missing or
  \<open>undefined\<close>, for which the constructor's defaults stand in.
\<close>

record session_params =
  arg_contentId :: "jsstring option"
  arg_pageUrl :: "jsstring option"
  arg_text :: "jsstring option"
  arg_startWordIndex :: "int option"
  arg_speed :: "number option"
  arg_volume :: "number option"
  arg_tabId :: "int option"

text \<open>\<open>!v\<close> on a string that may be undefined.\<close>

fun falsy :: "jsstring option \<Rightarrow> bool" where
  "falsy None = True"
| "falsy (Some s) = (s = [])"

definition extractWords :: "jsstring \<Rightarrow> jsstring list" where
  "extractWords t =
     (if t = [] then []
      else filter (\<lambda>w. length w > 0)
             (map (filter (\<lambda>c. isWordChar c \<or> isSpace c))
                (filter (\<lambda>w. length w > 0) (map trim (split_ws t)))))"

definition validateSpeed :: "number \<Rightarrow> error + real" where
  "validateSpeed v =
     (case parseFloat v of
        NaN \<Rightarrow> Inl (Error ''Speed must be a number'')
      | Num x \<Rightarrow>
          if x < 0.5 \<or> x > 2.0 then Inl (Error ''Speed must be between 0.5 and 2.0'')
          else Inr x)"

definition validateVolume :: "number \<Rightarrow> error + real" where
  "validateVolume v =
     (case parseFloat v of
        NaN \<Rightarrow> Inl (Error ''Volume must be a number'')
      | Num x \<Rightarrow>
          if x < 0.0 \<or> x > 1.0 then Inl (Error ''Volume must be between 0.0 and 1.0'')
          else Inr x)"

text \<open>
  The constructor. \<open>newId\<close> is what \<open>_generateSessionId()\<close> returns (built from the clock
  and \<open>Math.random()\<close>) and \<open>now\<close> is the clock, in milliseconds.
\<close>

definition AudioSession_new :: "jsstring \<Rightarrow> int \<Rightarrow> session_params \<Rightarrow> error + AudioSession" where
  "AudioSession_new newId now a =
     (let txt = (case arg_text a of None \<Rightarrow> [] | Some t \<Rightarrow> t);
          startWordIndex = (case arg_startWordIndex a of None \<Rightarrow> 0 | Some i \<Rightarrow> i);
          spd = (case arg_speed a of None \<Rightarrow> Num 1.0 | Some v \<Rightarrow> v);
          vol = (case arg_volume a of None \<Rightarrow> Num 1.0 | Some v \<Rightarrow> v)
      in
      if falsy (arg_contentId a) then Inl (Error ''contentId is required'')
      else if falsy (arg_pageUrl a) then Inl (Error ''pageUrl is required'')
      else if txt = [] then Inl (Error ''text is required'')
      else case arg_tabId a of
        None \<Rightarrow> Inl (Error ''tabId is required'')
      | Some tab \<Rightarrow>
          let ws = extractWords txt;
              total = int (length ws)
          in
          case validateSpeed spd of
            Inl e \<Rightarrow> Inl e
          | Inr sp \<Rightarrow>
             (case validateVolume vol of
                Inl e \<Rightarrow> Inl e
              | Inr vo \<Rightarrow>
                  Inr \<lparr> sessionId = newId,
                        contentId = the (arg_contentId a),
                        pageUrl = the (arg_pageUrl a),
                        tabId = tab,
                        text' = txt,
                        words = ws,
                        totalWords = total,
                        currentPosition = max 0 (min startWordIndex (total - 1)),
                        isPlaying = False,
                        isPaused = False,
                        speed = sp,
                        volume = vo,
                        createdAt = now,
                        lastActiveAt = now \<rparr>))"

text \<open>
  The argument of \<open>updateState\<close>: \<open>None\<close> is a property that is \<open>undefined\<close>.
\<close>

record state_update =
  upd_isPlaying :: "bool option"
  upd_isPaused :: "bool option"
  upd_currentPosition :: "int option"
  upd_speed :: "number option"
  upd_volume :: "number option"

definition no_update :: state_update where
  "no_update = \<lparr> upd_isPlaying = None, upd_isPaused = None, upd_currentPosition = None,
                  upd_speed = None, upd_volume = None \<rparr>"

text \<open>
  The last two assignments of \<open>updateState\<close>, each behind its validation:
  \<open>if (speed !== undefined) this.speed = this._validateSpeed(speed)\<close>.
\<close>

definition assignSpeed :: "number option \<Rightarrow> AudioSession \<Rightarrow> error + AudioSession" where
  "assignSpeed v s =
     (case v of
        None \<Rightarrow> Inr s
      | Some x \<Rightarrow> (case validateSpeed x of Inl e \<Rightarrow> Inl e | Inr y \<Rightarrow> Inr (s\<lparr>speed := y\<rparr>)))"

definition assignVolume :: "number option \<Rightarrow> AudioSession \<Rightarrow> error + AudioSession" where
  "assignVolume v s =
     (case v of
        None \<Rightarrow> Inr s
      | Some x \<Rightarrow> (case validateVolume x of Inl e \<Rightarrow> Inl e | Inr y \<Rightarrow> Inr (s\<lparr>volume := y\<rparr>)))"

text \<open>
  \<open>updateState\<close> assigns the fields in the order of the source and may throw in the
  middle, at the validation of the speed or of the volume: the assignments made before
  stay. So it returns the error, if any, together with the session as it is left.
\<close>

definition updateState :: "int \<Rightarrow> state_update \<Rightarrow> AudioSession \<Rightarrow> error option \<times> AudioSession" where
  "updateState now u s =
     (let s1 = (case upd_isPlaying u of None \<Rightarrow> s | Some b \<Rightarrow> s\<lparr>isPlaying := b\<rparr>);
          s2 = (case upd_isPaused u of None \<Rightarrow> s1 | Some b \<Rightarrow> s1\<lparr>isPaused := b\<rparr>);
          s3 = (case upd_currentPosition u of
                  None \<Rightarrow> s2
                | Some p \<Rightarrow> s2\<lparr>currentPosition := max 0 (min p (totalWords s2 - 1))\<rparr>)
      in
      case assignSpeed (upd_speed u) s3 of
        Inl e \<Rightarrow> (Some e, s3)
      | Inr s4 \<Rightarrow>
         (case assignVolume (upd_volume u) s4 of
            Inl e \<Rightarrow> (Some e, s4)
          | Inr s5 \<Rightarrow> (None, s5\<lparr>lastActiveAt := now\<rparr>)))"

text \<open>\<open>xs.slice(k)\<close>: a negative \<open>k\<close> counts from the end of the array.\<close>

definition slice_from :: "'a list \<Rightarrow> int \<Rightarrow> 'a list" where
  "slice_from xs k =
     (if k < 0 then drop (nat (int (length xs) + k)) xs else drop (nat k) xs)"

definition getRemainingText :: "AudioSession \<Rightarrow> jsstring" where
  "getRemainingText s =
     (if currentPosition s \<ge> int (length (words s)) then []
      else join_space (slice_from (words s) (currentPosition s)))"

definition isComplete :: "AudioSession \<Rightarrow> bool" where
  "isComplete s = (currentPosition s \<ge> totalWords s)"

text \<open>
  A caller's sequence of \<open>updateState\<close> calls, each at its own time; a call that throws
  does not prevent the next one. The result lists the session after each call.
\<close>

fun updates :: "AudioSession \<Rightarrow> (int \<times> state_update) list \<Rightarrow> AudioSession list" where
  "updates s [] = []"
| "updates s ((now, u) # us) =
     (let s' = snd (updateState now u s) in s' # updates s' us)"

section \<open>SpeechController\<close>

text \<open>
  Sessions are objects: the registry, the callbacks of an utterance and the caller of
  \<open>startSpeech\<close> hold references to the same one. The heap lists the session objects
  ever created; a reference is an index into it.
\<close>

type_synonym ref = nat

record voice =
  voice_name :: jsstring
  lang :: jsstring
  localService :: bool

text \<open>
  The utterance \<open>_startSpeechSynthesis\<close> builds. Its four callbacks are closures over
  one session object, \<open>utt_session\<close>.
\<close>

record utterance =
  utt_text :: jsstring
  utt_voice :: "voice option"
  utt_rate :: real
  utt_volume :: real
  utt_pitch :: real
  utt_session :: ref

text \<open>
  The speech engine is the browser's: the code reads its flags \<open>speaking\<close> and
  \<open>paused\<close> and calls \<open>speak\<close>, \<open>pause\<close>, \<open>resume\<close> and \<open>cancel\<close>. The model
  records the calls; what the flags show is up to the engine.
\<close>

datatype engine_call = Speak utterance | Pause | Resume | Cancel

datatype message =
    SESSION_UPDATED AudioSession
  | SESSION_ERROR string jsstring

record controller =
  heap :: "AudioSession list"
  activeSessions :: "(jsstring \<times> ref) list"
  maxConcurrentSessions :: nat
  currentUtterance :: "utterance option"
  currentSessionId :: "jsstring option"
  synth_speaking :: bool
  synth_paused :: bool
  synth_calls :: "engine_call list"
  sent :: "(int \<times> message) list"

definition SpeechController_new :: controller where
  "SpeechController_new =
     \<lparr> heap = [], activeSessions = [], maxConcurrentSessions = 10,
       currentUtterance = None, currentSessionId = None,
       synth_speaking = False, synth_paused = False, synth_calls = [], sent = [] \<rparr>"

text \<open>What the code asks of the platform it runs on.\<close>

record platform =
  globalSpeech :: bool
  globalUtterance :: bool
  hasWindow :: bool
  windowSpeech :: bool
  windowUtterance :: bool
  getVoices :: "voice list"
  voicesAfterWait :: "voice list"

definition isSpeechSupported :: "platform \<Rightarrow> bool" where
  "isSpeechSupported p =
     (if globalSpeech p \<and> globalUtterance p then True
      else if hasWindow p then windowSpeech p \<and> windowUtterance p
      else False)"

fun startsWith :: "jsstring \<Rightarrow> jsstring \<Rightarrow> bool" where
  "startsWith s [] = True"
| "startsWith [] (p # ps) = False"
| "startsWith (c # cs) (p # ps) = (c = p \<and> startsWith cs ps)"

text \<open>
  \<open>_getBestVoice(language)\<close>. Where the first list of voices is empty the code waits
  and asks again: \<open>voicesAfterWait\<close> is the second answer.
\<close>

definition getBestVoice :: "platform \<Rightarrow> jsstring \<Rightarrow> error + voice option" where
  "getBestVoice p language =
     (if \<not> (globalSpeech p \<or> (hasWindow p \<and> windowSpeech p))
      then Inl (VoiceNotAvailableError (Some language))
      else
        let availableVoices = (if getVoices p = [] then voicesAfterWait p else getVoices p);
            localVoices = filter localService availableVoices
        in
        if length localVoices > 0 then
          (case find (\<lambda>v. startsWith (lang v) (takeWhile (\<lambda>c. c \<noteq> 0x2D) language)) localVoices of
             Some v \<Rightarrow> Inr (Some v)
           | None \<Rightarrow> Inr (Some (hd localVoices)))
        else if length availableVoices > 0 then Inr (Some (hd availableVoices))
        else Inr None)"

definition getSession :: "controller \<Rightarrow> jsstring \<Rightarrow> error + ref" where
  "getSession st sid =
     (case map_of (activeSessions st) sid of
        None \<Rightarrow> Inl (SessionNotFoundError sid)
      | Some r \<Rightarrow> Inr r)"

text \<open>\<open>session.updateState(u)\<close> on the session object at \<open>r\<close>.\<close>

definition session_update :: "ref \<Rightarrow> int \<Rightarrow> state_update \<Rightarrow> controller \<Rightarrow> error option \<times> controller" where
  "session_update r now u st =
     (let (e, s') = updateState now u (heap st ! r)
      in (e, st\<lparr>heap := (heap st)[r := s']\<rparr>))"

definition broadcastSessionUpdate :: "ref \<Rightarrow> controller \<Rightarrow> controller" where
  "broadcastSessionUpdate r st =
     st\<lparr>sent := sent st @ [(tabId (heap st ! r), SESSION_UPDATED (heap st ! r))]\<rparr>"

definition broadcastError :: "string \<Rightarrow> jsstring \<Rightarrow> controller \<Rightarrow> controller" where
  "broadcastError msg sid st =
     (case map_of (activeSessions st) sid of
        None \<Rightarrow> st
      | Some r \<Rightarrow> st\<lparr>sent := sent st @ [(tabId (heap st ! r), SESSION_ERROR msg sid)]\<rparr>)"

text \<open>
  \<open>_calculateWordIndex(charIndex, session)\<close>. \<open>substring(0, charIndex)\<close> takes a
  negative index for 0.
\<close>

definition calculateWordIndex :: "int \<Rightarrow> AudioSession \<Rightarrow> int" where
  "calculateWordIndex charIndex s =
     (let textUpToChar = substring (getRemainingText s) 0 (nat charIndex);
          wordsBeforeChar = int (length (split_ws textUpToChar)) - 1
      in currentPosition s + max 0 wordsBeforeChar)"

subsection \<open>The callbacks of an utterance\<close>

definition utterance_onstart :: "ref \<Rightarrow> int \<Rightarrow> controller \<Rightarrow> controller" where
  "utterance_onstart r now st =
     broadcastSessionUpdate r
       (snd (session_update r now
          (no_update\<lparr>upd_isPlaying := Some True, upd_isPaused := Some False\<rparr>) st))"

definition utterance_onend :: "ref \<Rightarrow> int \<Rightarrow> controller \<Rightarrow> controller" where
  "utterance_onend r now st =
     (let st1 = snd (session_update r now
                  (no_update\<lparr>upd_isPlaying := Some False, upd_isPaused := Some False,
                              upd_currentPosition := Some (totalWords (heap st ! r))\<rparr>) st);
          st2 = broadcastSessionUpdate r st1
      in
      if currentSessionId st2 = Some (sessionId (heap st2 ! r))
      then st2\<lparr>currentUtterance := None, currentSessionId := None\<rparr>
      else st2)"

definition utterance_onerror :: "ref \<Rightarrow> int \<Rightarrow> string \<Rightarrow> controller \<Rightarrow> controller" where
  "utterance_onerror r now err st =
     (let st1 = snd (session_update r now
                  (no_update\<lparr>upd_isPlaying := Some False, upd_isPaused := Some False\<rparr>) st)
      in broadcastError (''Speech synthesis error: '' @ err) (sessionId (heap st1 ! r)) st1)"

record boundary_event =
  ev_name :: jsstring
  ev_charIndex :: int

definition utterance_onboundary :: "ref \<Rightarrow> int \<Rightarrow> boundary_event \<Rightarrow> controller \<Rightarrow> controller" where
  "utterance_onboundary r now ev st =
     (if ev_name ev = js ''word'' then
        let wordIndex = calculateWordIndex (ev_charIndex ev) (heap st ! r);
            st1 = snd (session_update r now (no_update\<lparr>upd_currentPosition := Some wordIndex\<rparr>) st)
        in broadcastSessionUpdate r st1
      else st)"

text \<open>\<open>_startSpeechSynthesis(session, voice)\<close>.\<close>

definition startSpeechSynthesis :: "ref \<Rightarrow> voice option \<Rightarrow> controller \<Rightarrow> error option \<times> controller" where
  "startSpeechSynthesis r v st =
     (let s = heap st ! r;
          textToSpeak = getRemainingText s
      in
      if textToSpeak = [] then (Some (TextProcessingError ''No text to speak'' None), st)
      else
        let u = \<lparr> utt_text = textToSpeak, utt_voice = v, utt_rate = speed s,
                  utt_volume = volume s, utt_pitch = 1.0, utt_session = r \<rparr>
        in (None, st\<lparr>currentUtterance := Some u,
                     currentSessionId := Some (sessionId s),
                     synth_calls := synth_calls st @ [Speak u]\<rparr>))"

subsection \<open>The operations of the controller\<close>

text \<open>
  Each operation is given the clock and, where it needs them, the platform and the
  identifier the new session will draw. It returns its error or its result together
  with the controller as it is left: what was assigned before a throw stays assigned.
  An operation runs to its end before the next one starts. The registry and the
  utterances hold references to session objects that exist: indices below the length of
  the heap. In \<open>startSpeech\<close> the request is taken apart a second time after the voice
  is chosen; a missing request never gets there, \<open>_validateStartRequest\<close> has thrown.
\<close>

record speech_request =
  req_contentId :: "jsstring option"
  req_pageUrl :: "jsstring option"
  req_text :: "jsstring option"
  req_startWordIndex :: "int option"
  req_speed :: "number option"
  req_volume :: "number option"
  req_tabId :: "int option"

definition validateStartRequest :: "speech_request option \<Rightarrow> error option" where
  "validateStartRequest request =
     (case request of
        None \<Rightarrow> Some (Error ''Request is required'')
      | Some rq \<Rightarrow>
          if falsy (req_contentId rq) then Some (Error ''contentId is required'')
          else if falsy (req_text rq) then Some (Error ''text is required'')
          else if req_tabId rq = None then Some (Error ''tabId is required'')
          else None)"

text \<open>\<open>v || d\<close> on a number that may be undefined: \<open>undefined\<close>, \<open>0\<close> and \<open>NaN\<close> give \<open>d\<close>.\<close>

fun orDefault :: "number option \<Rightarrow> real \<Rightarrow> number" where
  "orDefault None d = Num d"
| "orDefault (Some NaN) d = Num d"
| "orDefault (Some (Num x)) d = (if x = 0 then Num d else Num x)"

definition startFailed :: "error \<Rightarrow> error" where
  "startFailed e = TextProcessingError ''Failed to start speech synthesis'' (Some e)"

definition startSpeech ::
    "platform \<Rightarrow> jsstring \<Rightarrow> int \<Rightarrow> speech_request option \<Rightarrow> controller \<Rightarrow> (error + ref) \<times> controller" where
  "startSpeech p newId now request st =
     (case validateStartRequest request of
        Some e \<Rightarrow> (Inl e, st)
      | None \<Rightarrow>
        if \<not> isSpeechSupported p then (Inl SpeechNotSupportedError, st)
        else if length (activeSessions st) \<ge> maxConcurrentSessions st
          then (Inl (SessionLimitError (maxConcurrentSessions st)), st)
        else
          (case getBestVoice p (js ''en-US'') of
             Inl e \<Rightarrow> (Inl e, st)
           | Inr None \<Rightarrow> (Inl (VoiceNotAvailableError None), st)
           | Inr (Some v) \<Rightarrow>
              (case request of
                 None \<Rightarrow> (Inl (Error ''Request is required''), st)
               | Some rq \<Rightarrow>
                  if falsy (req_text rq) \<or> length (trim (case req_text rq of None \<Rightarrow> [] | Some t \<Rightarrow> t)) = 0
                  then (Inl (TextProcessingError ''Text content is empty'' None), st)
                  else
                    (case AudioSession_new newId now
                            \<lparr> arg_contentId = req_contentId rq,
                              arg_pageUrl = (if falsy (req_pageUrl rq) then Some (js ''unknown'')
                                             else req_pageUrl rq),
                              arg_text = req_text rq,
                              arg_startWordIndex =
                                Some (case req_startWordIndex rq of None \<Rightarrow> 0 | Some i \<Rightarrow> i),
                              arg_speed = Some (orDefault (req_speed rq) 1.0),
                              arg_volume = Some (orDefault (req_volume rq) 1.0),
                              arg_tabId = req_tabId rq \<rparr> of
                       Inl e \<Rightarrow> (Inl (startFailed e), st)
                     | Inr s \<Rightarrow>
                        let r = length (heap st);
                            st1 = st\<lparr>heap := heap st @ [s],
                                     activeSessions := AList.update (sessionId s) r (activeSessions st)\<rparr>
                        in
                        (case startSpeechSynthesis r (Some v) st1 of
                           (Some e, st2) \<Rightarrow> (Inl (startFailed e), st2)
                         | (None, st2) \<Rightarrow>
                            (case session_update r now
                                    (no_update\<lparr>upd_isPlaying := Some True, upd_isPaused := Some False\<rparr>)
                                    st2 of
                               (Some e, st3) \<Rightarrow> (Inl (startFailed e), st3)
                             | (None, st3) \<Rightarrow> (Inr r, st3)))))))"

definition pauseSpeech :: "int \<Rightarrow> jsstring \<Rightarrow> controller \<Rightarrow> error option \<times> controller" where
  "pauseSpeech now sid st =
     (case getSession st sid of
        Inl e \<Rightarrow> (Some e, st)
      | Inr r \<Rightarrow>
          let st1 = (if currentSessionId st = Some sid \<and> synth_speaking st
                     then st\<lparr>synth_calls := synth_calls st @ [Pause]\<rparr> else st)
          in session_update r now
               (no_update\<lparr>upd_isPlaying := Some False, upd_isPaused := Some True\<rparr>) st1)"

definition resumeSpeech :: "platform \<Rightarrow> int \<Rightarrow> jsstring \<Rightarrow> controller \<Rightarrow> error option \<times> controller" where
  "resumeSpeech p now sid st =
     (case getSession st sid of
        Inl e \<Rightarrow> (Some e, st)
      | Inr r \<Rightarrow>
          if \<not> isPaused (heap st ! r)
          then (Some (Error ''Invalid session state - session is not paused''), st)
          else
            let playing = no_update\<lparr>upd_isPlaying := Some True, upd_isPaused := Some False\<rparr>
            in
            if currentSessionId st = Some sid \<and> synth_paused st
            then session_update r now playing (st\<lparr>synth_calls := synth_calls st @ [Resume]\<rparr>)
            else
              (case getBestVoice p (js ''en-US'') of
                 Inl e \<Rightarrow> (Some e, st)
               | Inr v \<Rightarrow>
                  (case startSpeechSynthesis r v st of
                     (Some e, st1) \<Rightarrow> (Some e, st1)
                   | (None, st1) \<Rightarrow> session_update r now playing st1)))"

definition stopSpeech :: "jsstring \<Rightarrow> controller \<Rightarrow> error option \<times> controller" where
  "stopSpeech sid st =
     (case getSession st sid of
        Inl e \<Rightarrow> (Some e, st)
      | Inr r \<Rightarrow>
          let st1 = (if currentSessionId st = Some sid
                     then st\<lparr>synth_calls := synth_calls st @ [Cancel],
                              currentUtterance := None, currentSessionId := None\<rparr>
                     else st)
          in (None, st1\<lparr>activeSessions := AList.delete sid (activeSessions st1)\<rparr>))"

definition setSpeed :: "platform \<Rightarrow> int \<Rightarrow> jsstring \<Rightarrow> number \<Rightarrow> controller \<Rightarrow> error option \<times> controller" where
  "setSpeed p now sid v st =
     (case getSession st sid of
        Inl e \<Rightarrow> (Some e, st)
      | Inr r \<Rightarrow>
          if num_lt v 0.5 \<or> num_gt v 2.0
          then (Some (Error ''Invalid speed value - must be between 0.5 and 2.0''), st)
          else
            (case session_update r now (no_update\<lparr>upd_speed := Some v\<rparr>) st of
               (Some e, st1) \<Rightarrow> (Some e, st1)
             | (None, st1) \<Rightarrow>
                 if currentSessionId st1 = Some sid \<and> currentUtterance st1 \<noteq> None then
                   let st2 = st1\<lparr>currentUtterance :=
                               map_option (\<lambda>u. u\<lparr>utt_rate := speed (heap st1 ! r)\<rparr>)
                                 (currentUtterance st1)\<rparr>
                   in
                   if synth_speaking st2 \<and> \<not> synth_paused st2 then
                     let wasPlaying = isPlaying (heap st2 ! r);
                         st3 = st2\<lparr>synth_calls := synth_calls st2 @ [Cancel]\<rparr>
                     in
                     if wasPlaying then
                       (case getBestVoice p (js ''en-US'') of
                          Inl e \<Rightarrow> (Some e, st3)
                        | Inr vc \<Rightarrow>
                           (case startSpeechSynthesis r vc st3 of
                              (Some e, st4) \<Rightarrow> (Some e, st4)
                            | (None, st4) \<Rightarrow> (None, broadcastSessionUpdate r st4)))
                     else (None, broadcastSessionUpdate r st3)
                   else (None, broadcastSessionUpdate r st2)
                 else (None, broadcastSessionUpdate r st1)))"

definition setVolume :: "int \<Rightarrow> jsstring \<Rightarrow> number \<Rightarrow> controller \<Rightarrow> error option \<times> controller" where
  "setVolume now sid v st =
     (case getSession st sid of
        Inl e \<Rightarrow> (Some e, st)
      | Inr r \<Rightarrow>
          if num_lt v 0.0 \<or> num_gt v 1.0
          then (Some (Error ''Invalid volume value - must be between 0.0 and 1.0''), st)
          else
            (case session_update r now (no_update\<lparr>upd_volume := Some v\<rparr>) st of
               (Some e, st1) \<Rightarrow> (Some e, st1)
             | (None, st1) \<Rightarrow>
                 let st2 = (if currentSessionId st1 = Some sid \<and> currentUtterance st1 \<noteq> None
                            then st1\<lparr>currentUtterance :=
                                       map_option (\<lambda>u. u\<lparr>utt_volume := volume (heap st1 ! r)\<rparr>)
                                         (currentUtterance st1)\<rparr>
                            else st1)
                 in (None, broadcastSessionUpdate r st2)))"

definition getActiveSessionCount :: "controller \<Rightarrow> nat" where
  "getActiveSessionCount st = length (activeSessions st)"

section \<open>Double-precision arithmetic\<close>

text \<open>
  The score is computed in JavaScript numbers: IEEE 754 doubles, each operation rounded
  to the nearest double, ties to the even significand. A finite double is a rational
  number, and the operations below round the exact result as the standard does, with
  53 bits of significand and the exponents of the format (subnormal numbers included).
  A result beyond the largest double would be \<open>Infinity\<close>; the lengths and
  counts of a page, all below \<open>2^53\<close> and so doubles as they are, do not lead there.
\<close>

text \<open>\<open>ilog2 x\<close> is the exponent of a positive \<open>x\<close>: \<open>2^(ilog2 x) \<le> x < 2^(ilog2 x + 1)\<close>.\<close>

definition ilog2 :: "rat \<Rightarrow> int" where
  "ilog2 x =
     (let d = bitlen (fst (quotient_of x)) - bitlen (snd (quotient_of x))
      in if 2 powi d \<le> x then d else d - 1)"

text \<open>The nearest integer, the even one of two that are equally near.\<close>

definition round_even :: "rat \<Rightarrow> int" where
  "round_even y =
     (let f = \<lfloor>y\<rfloor>; r = y - of_int f
      in if r < 1/2 then f else if 1/2 < r then f + 1 else if even f then f else f + 1)"

text \<open>
  The doubles around a positive \<open>a\<close> are the multiples of \<open>2^(quantum a)\<close>: 52 binary
  places below the exponent, and never below \<open>2^-1074\<close>.
\<close>

definition quantum :: "rat \<Rightarrow> int" where
  "quantum a = max (ilog2 a - 52) (- 1074)"

definition nearest :: "rat \<Rightarrow> rat" where
  "nearest a = of_int (round_even (a / 2 powi quantum a)) * 2 powi quantum a"

definition rnd :: "rat \<Rightarrow> rat" where
  "rnd x = (if x = 0 then 0 else sgn x * nearest \<bar>x\<bar>)"

definition fadd :: "rat \<Rightarrow> rat \<Rightarrow> rat" where
  "fadd a b = rnd (a + b)"

definition fsub :: "rat \<Rightarrow> rat \<Rightarrow> rat" where
  "fsub a b = rnd (a - b)"

definition fmul :: "rat \<Rightarrow> rat \<Rightarrow> rat" where
  "fmul a b = rnd (a * b)"

definition fdiv :: "rat \<Rightarrow> rat \<Rightarrow> rat" where
  "fdiv a b = rnd (a / b)"

section \<open>TextExtractor: the content density score\<close>

text \<open>
  What \<open>_calculateContentScore\<close> reads of an element: its \<open>textContent\<close>, the number of
  \<open>p\<close> elements below it, the \<open>textContent\<close> of each \<open>a\<close> element below it, and the
  number of its children. A \<open>textContent\<close> may be \<open>null\<close>. The lengths are added as
  integers, which is exact in doubles; every other operation is the rounded one.
\<close>

record element =
  textContent :: "jsstring option"
  paragraphs :: nat
  links :: "jsstring option list"
  children :: nat

text \<open>\<open>v || ''\<close> on a string that may be null.\<close>

fun orEmpty :: "jsstring option \<Rightarrow> jsstring" where
  "orEmpty None = []"
| "orEmpty (Some s) = s"

definition calculateContentScore :: "element option \<Rightarrow> rat" where
  "calculateContentScore el =
     (case el of
        None \<Rightarrow> 0
      | Some e \<Rightarrow>
          let txt = orEmpty (textContent e);
              textLength = length (trim txt);
              score0 = fadd 0 (fdiv (of_nat textLength) 25);
              score1 = fadd score0 (fmul (of_nat (paragraphs e)) 25);
              linkText = foldl (\<lambda>total link. total + length (orEmpty link)) 0 (links e);
              linkDensity = (if textLength > 0 then fdiv (of_nat linkText) (of_nat textLength)
                             else 0);
              score2 = (if linkDensity > 1/2 then fmul score1 (fsub 1 linkDensity) else score1);
              childElements = children e;
              score3 = (if childElements > 20
                           \<and> fdiv (of_nat textLength) (of_nat childElements) < 50
                        then fmul score2 (1/2) else score2)
          in max 0 score3)"

section \<open>ClickHandler: sentences and the clicked position\<close>

record sentence =
  sent_text :: jsstring
  sent_start :: nat
  sent_end :: nat

text \<open>
  \<open>sentenceRegex.exec(text)\<close> for \<open>/[.!?]+/g\<close> with its \<open>lastIndex\<close>: the first
  character of the class at or after \<open>lastIndex\<close> starts the match, which takes the
  whole run from there. The result is \<open>match.index\<close> and \<open>match[0].length\<close>, or \<open>None\<close>
  for \<open>null\<close>.
\<close>

definition regexExec :: "jsstring \<Rightarrow> nat \<Rightarrow> (nat \<times> nat) option" where
  "regexExec txt lastIndex =
     (let index = lastIndex + length (takeWhile (\<lambda>c. \<not> isTerminal c) (drop lastIndex txt))
      in if index \<ge> length txt then None
         else Some (index, length (takeWhile isTerminal (drop index txt))))"

text \<open>
  The \<open>while\<close> loop of \<open>splitIntoSentences\<close>. It returns the sentences pushed and the
  last value of \<open>lastEnd\<close>.
\<close>

function splitLoop :: "jsstring \<Rightarrow> nat \<Rightarrow> sentence list \<Rightarrow> sentence list \<times> nat" where
  "splitLoop txt lastEnd sentences =
     (case regexExec txt lastEnd of
        None \<Rightarrow> (sentences, lastEnd)
      | Some (index, len) \<Rightarrow>
          let sentenceText = trim (substring txt lastEnd (index + len))
          in splitLoop txt (index + len)
               (if length sentenceText > 0
                then sentences @ [\<lparr> sent_text = sentenceText, sent_start = lastEnd,
                                     sent_end = index + len \<rparr>]
                else sentences))"
  by pat_completeness auto
termination
proof (relation "measure (\<lambda>(txt, lastEnd, sentences). length txt - lastEnd)")
  show "wf (measure (\<lambda>(txt, lastEnd, sentences). length txt - lastEnd))" by simp
next
  fix str lastEnd sentences x2 index len sentenceText
  assume "regexExec str lastEnd = Some x2" and "(index, len) = x2"
  then have i: "index = lastEnd + length (takeWhile (\<lambda>c. \<not> isTerminal c) (drop lastEnd str))"
    and lt: "index < length str"
    and l: "len = length (takeWhile isTerminal (drop index str))"
    by (auto simp: regexExec_def Let_def split: if_splits)
  let ?xs = "drop lastEnd str"
  let ?k = "length (takeWhile (\<lambda>c. \<not> isTerminal c) ?xs)"
  have "?k < length ?xs" using i lt by simp
  then have "\<not> \<not> isTerminal (?xs ! ?k)" by (rule nth_length_takeWhile)
  then have "isTerminal (str ! index)" using i lt by simp
  then have "takeWhile isTerminal (drop index str) \<noteq> []"
    using lt by (simp add: takeWhile_eq_Nil_iff hd_drop_conv_nth)
  then have "lastEnd < index + len" using i l by simp
  moreover have "lastEnd \<le> index" using i by simp
  ultimately show "((str, index + len,
          if 0 < length sentenceText
          then sentences @ [\<lparr> sent_text = sentenceText, sent_start = lastEnd, sent_end = index + len \<rparr>]
          else sentences),
         str, lastEnd, sentences)
        \<in> measure (\<lambda>(str, lastEnd, sentences). length str - lastEnd)"
    using lt by simp
qed

declare splitLoop.simps [simp del]

text \<open>
  \<open>splitIntoSentences(text)\<close>. The empty string is falsy and gives no sentence.
\<close>

definition splitIntoSentences :: "jsstring \<Rightarrow> sentence list" where
  "splitIntoSentences txt =
     (if txt = [] then []
      else
        let (sentences, lastEnd) = splitLoop txt 0 []
        in if lastEnd < length txt then
             let remainingText = trim (drop lastEnd txt)
             in if length remainingText > 0
                then sentences @ [\<lparr> sent_text = remainingText, sent_start = lastEnd,
                                     sent_end = length txt \<rparr>]
                else sentences
           else sentences)"

text \<open>\<open>s.includes(p)\<close>: \<open>p\<close> occurs in \<open>s\<close>.\<close>

fun includes_js :: "jsstring \<Rightarrow> jsstring \<Rightarrow> bool" where
  "includes_js [] p = (p = [])"
| "includes_js (c # cs) p = (startsWith (c # cs) p \<or> includes_js cs p)"

text \<open>The test of the loop of \<open>extractTextFromClick\<close>.\<close>

definition matchesClicked :: "sentence \<Rightarrow> jsstring \<Rightarrow> bool" where
  "matchesClicked s clickedText =
     (trim (sent_text s) = trim clickedText
      \<or> includes_js (sent_text s) (trim clickedText)
      \<or> includes_js (trim clickedText) (trim (sent_text s)))"

text \<open>
  The loop: \<open>startSentenceIndex\<close> is the index of the first sentence that passes the
  test, and stays 0 where none does. \<open>i\<close> is the index of the head of the list.
\<close>

fun findStartSentence :: "jsstring \<Rightarrow> sentence list \<Rightarrow> nat \<Rightarrow> nat" where
  "findStartSentence clickedText [] i = 0"
| "findStartSentence clickedText (s # ss) i =
     (if matchesClicked s clickedText then i else findStartSentence clickedText ss (i + 1))"

datatype dom_node = DocumentBody | EventTarget

record readingInfo =
  startSentenceIndex :: nat
  sentences :: "sentence list"
  fullArticleText :: jsstring
  clickedElement :: dom_node

text \<open>
  \<open>setupFullArticleReading(fullArticleText)\<close> and \<open>extractTextFromClick(event)\<close>. They
  return the text to read together with \<open>this.currentReadingInfo\<close> as it is left.
  Of the page the second one is given what the extractor found (\<open>None\<close> where it found
  nothing or threw), what \<open>getClickedSentenceText(event)\<close> found (\<open>None\<close> for
  \<open>null\<close>) and what \<open>extractTextFromElement(event.target)\<close> would return.
\<close>

definition setupFullArticleReading ::
    "jsstring option \<Rightarrow> readingInfo option \<Rightarrow> jsstring \<times> readingInfo option" where
  "setupFullArticleReading fullText info =
     (if falsy fullText then ([], info)
      else
        let allSentences = splitIntoSentences (orEmpty fullText)
        in (orEmpty fullText,
            Some \<lparr> startSentenceIndex = 0, sentences = allSentences,
                   fullArticleText = orEmpty fullText, clickedElement = DocumentBody \<rparr>))"

definition extractTextFromClick ::
    "jsstring option \<Rightarrow> jsstring option \<Rightarrow> jsstring \<Rightarrow> readingInfo option
      \<Rightarrow> jsstring \<times> readingInfo option" where
  "extractTextFromClick fullText clickedText elementText info =
     (if falsy clickedText then setupFullArticleReading fullText info
      else if falsy fullText then (elementText, info)
      else
        let allSentences = splitIntoSentences (orEmpty fullText);
            start = findStartSentence (orEmpty clickedText) allSentences 0;
            remainingText = join_space (map sent_text (drop start allSentences))
        in (remainingText,
            Some \<lparr> startSentenceIndex = start, sentences = allSentences,
                   fullArticleText = orEmpty fullText, clickedElement = EventTarget \<rparr>))"

section \<open>Auxiliary definitions\<close>

text \<open>
  The first three assignments of \<open>updateState\<close>: the two flags and the clamped position.
\<close>

definition playbackFields :: "state_update \<Rightarrow> AudioSession \<Rightarrow> AudioSession" where
  "playbackFields u s =
     (let s1 = (case upd_isPlaying u of None \<Rightarrow> s | Some b \<Rightarrow> s\<lparr>isPlaying := b\<rparr>);
          s2 = (case upd_isPaused u of None \<Rightarrow> s1 | Some b \<Rightarrow> s1\<lparr>isPaused := b\<rparr>)
      in (case upd_currentPosition u of
            None \<Rightarrow> s2
          | Some p \<Rightarrow> s2\<lparr>currentPosition := max 0 (min p (totalWords s2 - 1))\<rparr>))"

text \<open>
  What the constructor establishes and \<open>updateState\<close> keeps: the position is an index
  of a word, or 0 where the text has no word.
\<close>

definition position_inv :: "AudioSession \<Rightarrow> bool" where
  "position_inv s = (0 \<le> currentPosition s \<and> currentPosition s \<le> max 0 (totalWords s - 1))"

text \<open>
  The boundary events the engine sends to the utterance of the session at \<open>r\<close>, each at
  its own time. The result lists the controller after each event.
\<close>

fun boundaries :: "ref \<Rightarrow> (int \<times> boundary_event) list \<Rightarrow> controller \<Rightarrow> controller list" where
  "boundaries r [] st = []"
| "boundaries r ((now, ev) # evs) st =
     (let st' = utterance_onboundary r now ev st in st' # boundaries r evs st')"

subsection \<open>Concrete inputs\<close>

definition sample_params :: "jsstring \<Rightarrow> int \<Rightarrow> session_params" where
  "sample_params t i =
     \<lparr> arg_contentId = Some (js ''content_1''), arg_pageUrl = Some (js ''unknown''),
       arg_text = Some t, arg_startWordIndex = Some i, arg_speed = None, arg_volume = None,
       arg_tabId = Some 1 \<rparr>"

text \<open>The session the constructor builds from the text \<open>a b c\<close>, started at word \<open>i\<close>.\<close>

definition sample_session :: "int \<Rightarrow> AudioSession" where
  "sample_session i =
     \<lparr> sessionId = js ''session_1'', contentId = js ''content_1'', pageUrl = js ''unknown'',
       tabId = 1, text' = js ''a b c'', words = [js ''a'', js ''b'', js ''c''], totalWords = 3,
       currentPosition = i, isPlaying = False, isPaused = False, speed = 1, volume = 1,
       createdAt = 0, lastActiveAt = 0 \<rparr>"

definition position_update :: "int \<Rightarrow> state_update" where
  "position_update p = no_update\<lparr>upd_currentPosition := Some p\<rparr>"

text \<open>A controller with the sample session registered, and a platform with one local voice.\<close>

definition sample_controller :: "AudioSession \<Rightarrow> controller" where
  "sample_controller s =
     SpeechController_new\<lparr>heap := [s], activeSessions := [(js ''session_1'', 0)]\<rparr>"

definition sample_platform :: platform where
  "sample_platform =
     \<lparr> globalSpeech = False, globalUtterance = False, hasWindow = True, windowSpeech = True,
       windowUtterance = True,
       getVoices = [\<lparr> voice_name = js ''Test Voice'', lang = js ''en-US'', localService = True \<rparr>],
       voicesAfterWait = [] \<rparr>"

definition sample_request :: speech_request where
  "sample_request =
     \<lparr> req_contentId = Some (js ''content_1''), req_pageUrl = None, req_text = Some (js ''a b c''),
       req_startWordIndex = None, req_speed = None, req_volume = None, req_tabId = Some 1 \<rparr>"

text \<open>A registry at its limit: ten sessions, registered under ten identifiers.\<close>

definition full_controller :: controller where
  "full_controller =
     SpeechController_new
       \<lparr>heap := replicate 10 (sample_session 0),
        activeSessions := map (\<lambda>i. (js ''session_'' @ [of_nat i + 0x30], i)) [0..<10]\<rparr>"

definition word_event :: "int \<Rightarrow> boundary_event" where
  "word_event i = \<lparr> ev_name = js ''word'', ev_charIndex = i \<rparr>"

subsection \<open>The content score as the specification words it\<close>

text \<open>
  The four numbers an element is abstracted by, and the score written from the
  specification's sentence: \<open>textLength/25 + 25 \<times> paragraphCount\<close>, multiplied by
  \<open>1 - linkDensity\<close> when the link density exceeds 0.5, then halved when the element
  has more than 20 children and fewer than 50 characters of text per child. The
  operations are those of the code's numbers.
\<close>

definition textLength :: "element \<Rightarrow> nat" where
  "textLength e = length (trim (orEmpty (textContent e)))"

definition linkTextLength :: "element \<Rightarrow> nat" where
  "linkTextLength e = sum_list (map (\<lambda>l. length (orEmpty l)) (links e))"

definition linkDensity :: "nat \<Rightarrow> nat \<Rightarrow> rat" where
  "linkDensity linkLen textLen = (if textLen = 0 then 0 else fdiv (of_nat linkLen) (of_nat textLen))"

definition score_spec :: "nat \<Rightarrow> nat \<Rightarrow> nat \<Rightarrow> nat \<Rightarrow> rat" where
  "score_spec textLen paragraphCount linkLen childCount =
     (let base = fadd (fdiv (of_nat textLen) 25) (fmul 25 (of_nat paragraphCount));
          penalised = (if linkDensity linkLen textLen > 1/2
                       then fmul base (fsub 1 (linkDensity linkLen textLen)) else base)
      in if childCount > 20 \<and> fdiv (of_nat textLen) (of_nat childCount) < 50
         then fdiv penalised 2 else penalised)"

text \<open>
  Three elements. One whose only text is a link padded with white space, \<open>x\<close> inside
  \<open> x \<close>; the element \<open><div><a>abc</a>de</div>\<close>; and a list of 21 children with one
  paragraph and 30 characters of text, 20 of them in a link.
\<close>

definition padded_link :: element where
  "padded_link = \<lparr> textContent = Some (js ''  x  ''), paragraphs = 0,
                    links = [Some (js '' x '')], children = 1 \<rparr>"

definition linked_div :: element where
  "linked_div = \<lparr> textContent = Some (js ''abcde''), paragraphs = 0,
                   links = [Some (js ''abc'')], children = 1 \<rparr>"

definition link_list :: element where
  "link_list = \<lparr> textContent = Some (js ''aaaaaaaaaabbbbbbbbbbcccccccccc''), paragraphs = 1,
                  links = [Some (js ''bbbbbbbbbbcccccccccc'')], children = 21 \<rparr>"

subsection \<open>The segmentation as the specification words it\<close>

text \<open>
  A run of the characters \<open>.\<close>, \<open>!\<close>, \<open>?\<close> ends at \<open>p\<close> when the character before \<open>p\<close>
  is one of them and the character at \<open>p\<close>, if there is one, is not. The spans run from
  the start of the text or the end of a run to the end of the next run, and the last
  one from the end of the last run to the end of the text. A sentence is the trimmed
  text of a span, with the span's offsets, and spans of white space only give no sentence.
\<close>

definition isRunEnd :: "jsstring \<Rightarrow> nat \<Rightarrow> bool" where
  "isRunEnd txt p =
     (0 < p \<and> p \<le> length txt \<and> isTerminal (txt ! (p - 1))
      \<and> (p = length txt \<or> \<not> isTerminal (txt ! p)))"

definition runEndsFrom :: "jsstring \<Rightarrow> nat \<Rightarrow> nat list" where
  "runEndsFrom txt k = filter (isRunEnd txt) [Suc k ..< Suc (length txt)]"

definition spansFrom :: "jsstring \<Rightarrow> nat \<Rightarrow> (nat \<times> nat) list" where
  "spansFrom txt k = zip (k # runEndsFrom txt k) (runEndsFrom txt k @ [length txt])"

definition sentenceOf :: "jsstring \<Rightarrow> nat \<times> nat \<Rightarrow> sentence" where
  "sentenceOf txt bounds =
     \<lparr> sent_text = trim (substring txt (fst bounds) (snd bounds)),
       sent_start = fst bounds, sent_end = snd bounds \<rparr>"

definition sentencesOf :: "jsstring \<Rightarrow> (nat \<times> nat) list \<Rightarrow> sentence list" where
  "sentencesOf txt spans = filter (\<lambda>s. sent_text s \<noteq> []) (map (sentenceOf txt) spans)"

definition segment_spec :: "jsstring \<Rightarrow> sentence list" where
  "segment_spec txt = sentencesOf txt (spansFrom txt 0)"

text \<open>What \<open>splitIntoSentences\<close> does after its loop, with the trailing text.\<close>

definition withTrailing :: "jsstring \<Rightarrow> sentence list \<times> nat \<Rightarrow> sentence list" where
  "withTrailing txt r =
     (if snd r < length txt then
        (if length (trim (drop (snd r) txt)) > 0
         then fst r @ [\<lparr> sent_text = trim (drop (snd r) txt), sent_start = snd r,
                          sent_end = length txt \<rparr>]
         else fst r)
      else fst r)"

text \<open>The article of the specification's scenario, and its three sentences.\<close>

definition scenario_article :: jsstring where
  "scenario_article = js ''First sentence here. Second one follows. Third ends it!''"

definition scenario_sentences :: "sentence list" where
  "scenario_sentences =
     [\<lparr> sent_text = js ''First sentence here.'', sent_start = 0, sent_end = 20 \<rparr>,
      \<lparr> sent_text = js ''Second one follows.'', sent_start = 20, sent_end = 40 \<rparr>,
      \<lparr> sent_text = js ''Third ends it!'', sent_start = 40, sent_end = 55 \<rparr>]"

section \<open>Properties of the double-precision arithmetic\<close>

lemma bitlen_powi:
  assumes "0 < (a::int)"
  shows "(2::rat) powi (bitlen a - 1) \<le> of_int a" and "of_int a < (2::rat) powi (bitlen a)"
proof -
  from bitlen_bounds[OF assms] have b: "2 ^ nat (bitlen a - 1) \<le> a" "a < 2 ^ nat (bitlen a)"
    by simp_all
  have ge1: "1 \<le> bitlen a" using assms by (auto simp: bitlen_alt_def)
  have "(2::rat) powi (bitlen a - 1) = 2 ^ nat (bitlen a - 1)"
    using ge1 by (simp add: power_int_def)
  also have "\<dots> = of_int (2 ^ nat (bitlen a - 1))" by simp
  also have "\<dots> \<le> of_int a" using b(1) by (simp only: of_int_le_iff)
  finally show "(2::rat) powi (bitlen a - 1) \<le> of_int a" .
  have "(of_int a :: rat) < of_int (2 ^ nat (bitlen a))" using b(2) by (simp only: of_int_less_iff)
  also have "\<dots> = 2 ^ nat (bitlen a)" by simp
  also have "\<dots> = (2::rat) powi (bitlen a)" using ge1 by (simp add: power_int_def)
  finally show "of_int a < (2::rat) powi (bitlen a)" .
qed

lemma ilog2_bounds:
  assumes "0 < x"
  shows "2 powi (ilog2 x) \<le> x" and "x < 2 powi (ilog2 x + 1)"
proof -
  obtain a b where q: "quotient_of x = (a, b)" by (cases "quotient_of x")
  have b: "0 < b" using quotient_of_denom_pos[OF q] .
  have x: "x = of_int a / of_int b" using quotient_of_div[OF q] .
  have a: "0 < a" using assms b unfolding x by (simp add: zero_less_divide_iff)
  let ?d = "bitlen a - bitlen b"
  note ba = bitlen_powi[OF a] and bb = bitlen_powi[OF b]
  have bpos: "(0::rat) < of_int b" using b by simp
  have lo: "(2::rat) powi (?d - 1) \<le> x"
  proof -
    have "?d - 1 = (bitlen a - 1) - bitlen b" by simp
    then have "(2::rat) powi (?d - 1) = 2 powi (bitlen a - 1) / 2 powi (bitlen b)"
      by (simp only: power_int_diff[of "2::rat", simplified])
    also have "\<dots> \<le> of_int a / 2 powi (bitlen b)"
      using ba(1) by (simp add: divide_right_mono)
    also have "\<dots> \<le> of_int a / of_int b"
      using bb(2) a bpos by (intro divide_left_mono) (simp_all add: less_imp_le)
    finally show ?thesis unfolding x .
  qed
  have hi: "x < (2::rat) powi (?d + 1)"
  proof -
    have p: "(0::rat) < 2 powi (bitlen b - 1)" by simp
    have "x < 2 powi (bitlen a) / of_int b"
      unfolding x using ba(2) bpos by (simp add: divide_strict_right_mono)
    also have "\<dots> \<le> 2 powi (bitlen a) / 2 powi (bitlen b - 1)"
      using bb(1) p bpos by (intro divide_left_mono) (simp_all add: zero_less_mult_iff)
    also have "\<dots> = (2::rat) powi (bitlen a - (bitlen b - 1))"
      by (simp only: power_int_diff[of "2::rat", simplified])
    also have "bitlen a - (bitlen b - 1) = ?d + 1" by simp
    finally show ?thesis .
  qed
  have il: "ilog2 x = (if 2 powi ?d \<le> x then ?d else ?d - 1)"
    by (simp add: ilog2_def q Let_def)
  show "2 powi (ilog2 x) \<le> x" using lo by (simp add: il)
  show "x < 2 powi (ilog2 x + 1)" using hi by (auto simp: il not_le)
qed

lemma ilog2_unique:
  assumes "(2::rat) powi k \<le> x" and "x < 2 powi (k + 1)"
  shows "ilog2 x = k"
proof -
  have pos: "0 < x" using assms(1) by (rule less_le_trans[rotated]) simp
  note b = ilog2_bounds[OF pos]
  have "(2::rat) powi k < 2 powi (ilog2 x + 1)" using assms(1) b(2) by simp
  then have 1: "k < ilog2 x + 1"
    by (metis not_le power_int_increasing one_le_numeral not_less)
  have "(2::rat) powi (ilog2 x) < 2 powi (k + 1)" using assms(2) b(1) by simp
  then have 2: "ilog2 x < k + 1"
    by (metis not_le power_int_increasing one_le_numeral not_less)
  from 1 2 show ?thesis by simp
qed

lemma round_even_of_int [simp]: "round_even (of_int n) = n"
  by (simp add: round_even_def)

lemma round_even_floor: "round_even y = \<lfloor>y\<rfloor> \<or> round_even y = \<lfloor>y\<rfloor> + 1"
  by (simp add: round_even_def Let_def)

lemma round_even_ge:
  assumes "of_int m \<le> y"
  shows "m \<le> round_even y"
proof -
  have "m \<le> \<lfloor>y\<rfloor>" using assms by (simp add: le_floor_iff)
  then show ?thesis using round_even_floor[of y] by auto
qed

lemma round_even_le:
  assumes "y \<le> of_int m"
  shows "round_even y \<le> m"
proof (cases "y = of_int m")
  case True
  then show ?thesis by simp
next
  case False
  with assms have "y < of_int m" by simp
  then have "\<lfloor>y\<rfloor> < m" by (simp add: floor_less_iff)
  then show ?thesis using round_even_floor[of y] by auto
qed


lemma two_powi_le_D: "(2::rat) powi m \<le> 2 powi n \<Longrightarrow> m \<le> n"
  by (metis not_le power_int_strict_increasing one_less_numeral_iff semiring_norm(76))

lemma two_powi_add: "(2::rat) powi m * 2 powi n = 2 powi (m + n)"
  by (simp add: power_int_add)

lemma two_powi_div: "(2::rat) powi m / 2 powi n = 2 powi (m - n)"
  by (simp add: power_int_diff)

lemma two_powi_52: "(2::rat) powi 52 = of_int (2 ^ 52)" "(2::rat) powi 53 = of_int (2 ^ 53)"
  by simp_all

lemma scale_52: "(of_int (2 ^ 52) :: rat) * 2 powi k = 2 powi (k + 52)"
proof -
  have "(of_int (2 ^ 52) :: rat) = 2 powi 52" by simp
  then show ?thesis by (simp only: two_powi_add add.commute)
qed

lemma scale_53: "(of_int (2 ^ 53) :: rat) * 2 powi k = 2 powi (k + 53)"
proof -
  have "(of_int (2 ^ 53) :: rat) = 2 powi 53" by simp
  then show ?thesis by (simp only: two_powi_add add.commute)
qed

lemma nearest_of_multiple:
  assumes "quantum (of_int n * 2 powi q) = q"
  shows "nearest (of_int n * 2 powi q) = of_int n * 2 powi q"
  by (simp add: nearest_def assms)

lemma nearest_idem:
  assumes "0 < a"
  shows "nearest a = 0 \<or> nearest (nearest a) = nearest a"
proof -
  let ?e = "ilog2 a"
  let ?q = "quantum a"
  let ?P = "(2::rat) powi ?q"
  let ?y = "a / ?P"
  let ?n = "round_even ?y"
  have P: "0 < ?P" by simp
  have r: "nearest a = of_int ?n * ?P" by (simp add: nearest_def)
  note b = ilog2_bounds[OF assms]
  have "0 \<le> ?y" using assms by simp
  then have n0: "0 \<le> ?n" using round_even_ge[of 0 ?y] by simp
  show ?thesis
  proof (cases "?n = 0")
    case True
    then show ?thesis by (simp add: r)
  next
    case False
    with n0 have npos: "0 < ?n" by simp
    show ?thesis
    proof (cases "- 1074 \<le> ?e - 52")
      case True
      then have q: "?q = ?e - 52" by (simp add: quantum_def)
      have "(2::rat) powi 52 = 2 powi ?e / ?P" by (simp add: q two_powi_div)
      also have "\<dots> \<le> ?y" using b(1) P by (simp add: divide_right_mono)
      finally have ylo: "of_int (2 ^ 52) \<le> ?y" by simp
      have "?y < 2 powi (?e + 1) / ?P" using b(2) P by (simp add: divide_strict_right_mono)
      also have "\<dots> = 2 powi 53" by (simp add: q two_powi_div)
      finally have yhi: "?y \<le> of_int (2 ^ 53)" by simp
      have nlo: "2 ^ 52 \<le> ?n" using round_even_ge[OF ylo] .
      have nhi: "?n \<le> 2 ^ 53" using round_even_le[OF yhi] .
      show ?thesis
      proof (cases "?n = 2 ^ 53")
        case True
        have rr: "nearest a = 2 powi (?e + 1)"
        proof -
          have "nearest a = 2 powi 53 * 2 powi (?e - 52)" using True by (simp add: r q)
          also have "\<dots> = 2 powi (53 + (?e - 52))" by (simp only: two_powi_add)
          also have "53 + (?e - 52) = ?e + 1" by simp
          finally show ?thesis .
        qed
        have "ilog2 (2 powi (?e + 1)) = ?e + 1"
          by (rule ilog2_unique) (simp_all add: power_int_strict_increasing)
        then have qq: "quantum (2 powi (?e + 1)) = ?e - 51"
          using \<open>- 1074 \<le> ?e - 52\<close> by (simp add: quantum_def)
        have d: "(2::rat) powi (?e + 1) / 2 powi (?e - 51) = of_int (2 ^ 52)"
          by (simp only: two_powi_div) simp
        have "nearest (2 powi (?e + 1)) = of_int (round_even (of_int (2 ^ 52))) * 2 powi (?e - 51)"
          unfolding nearest_def qq d ..
        also have "\<dots> = 2 powi 52 * 2 powi (?e - 51)"
          by (simp only: round_even_of_int two_powi_52)
        also have "\<dots> = 2 powi (52 + (?e - 51))" by (simp only: two_powi_add)
        also have "52 + (?e - 51) = ?e + 1" by simp
        finally show ?thesis by (simp add: rr)
      next
        case False
        with nhi have nlt: "?n < 2 ^ 53" by simp
        have "?q + 52 = ?e" by (simp add: q)
        then have "(2::rat) powi ?e = of_int (2 ^ 52) * ?P"
          by (simp only: scale_52)
        also have "\<dots> \<le> of_int ?n * ?P"
        proof -
          have "(of_int (2 ^ 52) :: rat) \<le> of_int ?n" using nlo by (simp only: of_int_le_iff)
          then show ?thesis using less_imp_le[OF P] by (rule mult_right_mono)
        qed
        finally have lo: "2 powi ?e \<le> nearest a" by (simp add: r)
        have "of_int ?n * ?P < of_int (2 ^ 53) * ?P"
        proof -
          have "(of_int ?n :: rat) < of_int (2 ^ 53)" using nlt by (simp only: of_int_less_iff)
          then show ?thesis using P by (rule mult_strict_right_mono)
        qed
        also have "\<dots> = 2 powi (?q + 53)" by (rule scale_53)
        also have "?q + 53 = ?e + 1" by (simp add: q)
        finally have hi: "nearest a < 2 powi (?e + 1)" by (simp add: r)
        have "ilog2 (nearest a) = ?e" using lo hi by (rule ilog2_unique)
        then have "quantum (of_int ?n * ?P) = ?q" by (simp add: quantum_def r)
        from nearest_of_multiple[OF this] show ?thesis by (simp add: r)
      qed
    next
      case False
      then have q: "?q = - 1074" by (simp add: quantum_def)
      have "?y < 2 powi (?e + 1) / ?P" using b(2) P by (simp add: divide_strict_right_mono)
      also have "\<dots> = 2 powi (?e + 1 - ?q)" by (simp only: two_powi_div)
      also have "?e + 1 - ?q = ?e + 1075" by (simp add: q)
      also have "(2::rat) powi (?e + 1075) \<le> 2 powi 52"
        using False by (intro power_int_increasing) simp_all
      finally have "?y \<le> of_int (2 ^ 52)" by simp
      then have nhi: "?n \<le> 2 ^ 52" by (rule round_even_le)
      have rpos: "0 < nearest a" using npos P by (simp add: r)
      have "nearest a \<le> of_int (2 ^ 52) * ?P"
      proof -
        have "(of_int ?n :: rat) \<le> of_int (2 ^ 52)" using nhi by (simp only: of_int_le_iff)
        then show ?thesis unfolding r using less_imp_le[OF P] by (rule mult_right_mono)
      qed
      also have "\<dots> = 2 powi (?q + 52)" by (rule scale_52)
      also have "?q + 52 = - 1022" by (simp add: q)
      finally have "2 powi (ilog2 (nearest a)) \<le> (2::rat) powi (- 1022)"
        using ilog2_bounds(1)[OF rpos] by simp
      then have "ilog2 (nearest a) \<le> - 1022" by (rule two_powi_le_D)
      then have "quantum (nearest a) = - 1074" by (simp add: quantum_def[of "nearest a"])
      then have "quantum (of_int ?n * ?P) = ?q" unfolding r q .
      from nearest_of_multiple[OF this] show ?thesis by (simp add: r)
    qed
  qed
qed

lemma nearest_nonneg: "0 \<le> a \<Longrightarrow> 0 \<le> nearest a"
  using round_even_ge[of 0 "a / 2 powi quantum a"] by (simp add: nearest_def)

lemma rnd_idem: "rnd (rnd x) = rnd x"
proof (cases "x = 0")
  case True
  then show ?thesis by (simp add: rnd_def)
next
  case False
  then have ax: "0 < \<bar>x\<bar>" by simp
  show ?thesis
  proof (cases "nearest \<bar>x\<bar> = 0")
    case True
    then show ?thesis by (simp add: rnd_def)
  next
    case nz: False
    with nearest_idem[OF ax] have idem: "nearest (nearest \<bar>x\<bar>) = nearest \<bar>x\<bar>" by simp
    have pos: "0 < nearest \<bar>x\<bar>" using nz nearest_nonneg[of "\<bar>x\<bar>"] by simp
    have r: "rnd x = sgn x * nearest \<bar>x\<bar>" using False by (simp add: rnd_def)
    have "\<bar>rnd x\<bar> = nearest \<bar>x\<bar>" using pos False by (simp add: r abs_mult)
    moreover have "sgn (rnd x) = sgn x" using pos False by (simp add: r sgn_mult)
    moreover have "rnd x \<noteq> 0" using pos False by (simp add: r sgn_eq_0_iff)
    ultimately show ?thesis by (simp add: rnd_def idem)
  qed
qed
section \<open>Properties of AudioSession\<close>

lemmas char_defs = js_def isSpace_def isWordChar_def isTerminal_def

lemma updateState_alt:
  "updateState now u s =
     (case assignSpeed (upd_speed u) (playbackFields u s) of
        Inl e \<Rightarrow> (Some e, playbackFields u s)
      | Inr s4 \<Rightarrow>
         (case assignVolume (upd_volume u) s4 of
            Inl e \<Rightarrow> (Some e, s4)
          | Inr s5 \<Rightarrow> (None, s5\<lparr>lastActiveAt := now\<rparr>)))"
  unfolding updateState_def playbackFields_def Let_def by (rule refl)

lemma playbackFields_sel:
  "totalWords (playbackFields u s) = totalWords s"
  "currentPosition (playbackFields u s) =
     (case upd_currentPosition u of None \<Rightarrow> currentPosition s
      | Some p \<Rightarrow> max 0 (min p (totalWords s - 1)))"
  "isPlaying (playbackFields u s) = (case upd_isPlaying u of None \<Rightarrow> isPlaying s | Some b \<Rightarrow> b)"
  "isPaused (playbackFields u s) = (case upd_isPaused u of None \<Rightarrow> isPaused s | Some b \<Rightarrow> b)"
  "speed (playbackFields u s) = speed s"
  "volume (playbackFields u s) = volume s"
  "sessionId (playbackFields u s) = sessionId s"
  by (cases "upd_isPlaying u"; cases "upd_isPaused u"; cases "upd_currentPosition u";
      simp add: playbackFields_def)+

lemma assignSpeed_sel:
  assumes "assignSpeed v s = Inr s'"
  shows "totalWords s' = totalWords s" "currentPosition s' = currentPosition s"
    "isPlaying s' = isPlaying s" "isPaused s' = isPaused s" "volume s' = volume s"
    "sessionId s' = sessionId s"
  using assms by (cases v; cases "validateSpeed (the v)"; simp add: assignSpeed_def; fastforce)+

lemma assignVolume_sel:
  assumes "assignVolume v s = Inr s'"
  shows "totalWords s' = totalWords s" "currentPosition s' = currentPosition s"
    "isPlaying s' = isPlaying s" "isPaused s' = isPaused s" "speed s' = speed s"
    "sessionId s' = sessionId s"
  using assms by (cases v; cases "validateVolume (the v)"; simp add: assignVolume_def; fastforce)+

lemma updateState_sel:
  "totalWords (snd (updateState now u s)) = totalWords s"
  "currentPosition (snd (updateState now u s)) =
     (case upd_currentPosition u of None \<Rightarrow> currentPosition s
      | Some p \<Rightarrow> max 0 (min p (totalWords s - 1)))"
  "isPlaying (snd (updateState now u s)) = (case upd_isPlaying u of None \<Rightarrow> isPlaying s | Some b \<Rightarrow> b)"
  "isPaused (snd (updateState now u s)) = (case upd_isPaused u of None \<Rightarrow> isPaused s | Some b \<Rightarrow> b)"
  "sessionId (snd (updateState now u s)) = sessionId s"
  by (cases "assignSpeed (upd_speed u) (playbackFields u s)";
      cases "assignVolume (upd_volume u) (projr (assignSpeed (upd_speed u) (playbackFields u s)))";
      simp add: updateState_alt playbackFields_sel assignSpeed_sel assignVolume_sel)+

text \<open>An update that sets neither the speed nor the volume cannot throw.\<close>

lemma updateState_plain:
  assumes "upd_speed u = None" "upd_volume u = None"
  shows "updateState now u s = (None, (playbackFields u s)\<lparr>lastActiveAt := now\<rparr>)"
  using assms by (simp add: updateState_alt assignSpeed_def assignVolume_def)

lemma updateState_inv: "position_inv s \<Longrightarrow> position_inv (snd (updateState now u s))"
  by (cases "upd_currentPosition u") (simp_all add: position_inv_def updateState_sel)

lemma AudioSession_new_Inr:
  assumes "AudioSession_new newId now a = Inr s"
  shows "totalWords s = int (length (extractWords (case arg_text a of None \<Rightarrow> [] | Some t \<Rightarrow> t)))"
    and "currentPosition s =
           max 0 (min (case arg_startWordIndex a of None \<Rightarrow> 0 | Some i \<Rightarrow> i) (totalWords s - 1))"
proof -
  let ?spd = "validateSpeed (case arg_speed a of None \<Rightarrow> Num 1.0 | Some v \<Rightarrow> v)"
  let ?vol = "validateVolume (case arg_volume a of None \<Rightarrow> Num 1.0 | Some v \<Rightarrow> v)"
  let ?txt = "case arg_text a of None \<Rightarrow> [] | Some t \<Rightarrow> t"
  from assms obtain tab sp vo where "arg_tabId a = Some tab" "?spd = Inr sp" "?vol = Inr vo"
    by (cases "arg_tabId a"; cases ?spd; cases ?vol)
       (simp_all add: AudioSession_new_def Let_def split: if_splits)
  with assms have s: "s = \<lparr> sessionId = newId, contentId = the (arg_contentId a),
      pageUrl = the (arg_pageUrl a), tabId = tab, text' = ?txt, words = extractWords ?txt,
      totalWords = int (length (extractWords ?txt)),
      currentPosition = max 0 (min (case arg_startWordIndex a of None \<Rightarrow> 0 | Some i \<Rightarrow> i)
         (int (length (extractWords ?txt)) - 1)),
      isPlaying = False, isPaused = False, speed = sp, volume = vo,
      createdAt = now, lastActiveAt = now \<rparr>"
    by (simp add: AudioSession_new_def Let_def split: if_splits)
  show "totalWords s = int (length (extractWords ?txt))"
    by (subst s) simp
  show "currentPosition s =
           max 0 (min (case arg_startWordIndex a of None \<Rightarrow> 0 | Some i \<Rightarrow> i) (totalWords s - 1))"
    by (subst s, subst s) simp
qed

lemma AudioSession_new_inv: "AudioSession_new newId now a = Inr s \<Longrightarrow> position_inv s"
  using AudioSession_new_Inr[of newId now a s] by (auto simp: position_inv_def)

lemma AudioSession_new_total: "AudioSession_new newId now a = Inr s \<Longrightarrow> 0 \<le> totalWords s"
  using AudioSession_new_Inr(1)[of newId now a s] by simp

lemma updates_inv:
  "position_inv s \<Longrightarrow> s' \<in> set (updates s us) \<Longrightarrow> position_inv s' \<and> totalWords s' = totalWords s"
proof (induction us arbitrary: s)
  case Nil then show ?case by simp
next
  case (Cons a us)
  obtain now u where a: "a = (now, u)" by (cases a)
  let ?s1 = "snd (updateState now u s)"
  have s1: "position_inv ?s1" "totalWords ?s1 = totalWords s"
    using Cons.prems(1) by (simp_all add: updateState_inv updateState_sel)
  from Cons.prems(2) have "s' = ?s1 \<or> s' \<in> set (updates ?s1 us)"
    by (simp add: a Let_def)
  then show ?case using s1 Cons.IH[of ?s1] by auto
qed

lemma extractWords_abc: "extractWords (js ''a b c'') = [js ''a'', js ''b'', js ''c'']"
  by (simp add: extractWords_def split_ws_def trim_def char_defs)

lemma sample_session_new:
  "AudioSession_new (js ''session_1'') 0 (sample_params (js ''a b c'') i)
     = Inr (sample_session (max 0 (min i 2)))"
proof -
  have "js ''a b c'' \<noteq> []" "js ''content_1'' \<noteq> []" "js ''unknown'' \<noteq> []"
    by (simp_all add: js_def)
  then show ?thesis
    by (simp add: AudioSession_new_def sample_params_def sample_session_def extractWords_abc
        validateSpeed_def validateVolume_def parseFloat_def)
qed

lemma sample_update:
  "snd (updateState now (position_update p) (sample_session i))
     = (sample_session (max 0 (min p 2)))\<lparr>lastActiveAt := now\<rparr>"
  by (simp add: updateState_plain position_update_def no_update_def playbackFields_def
      sample_session_def)

text \<open>
  C4 (session position bound). For every session the constructor built and every
  sequence of \<open>updateState\<close> calls on it, with any integer positions, the position is
  between 0 and \<open>totalWords\<close> after every call. A position below 0 or above
  \<open>totalWords\<close> is never stored as given: the session keeps 0 for a negative one and the
  index of its last word, \<open>totalWords - 1\<close>, for one that is too large (0 where the text
  has no word).
\<close>

theorem session_position_bound:
  assumes "AudioSession_new newId t0 a = Inr s0"
  shows "(\<forall>s \<in> set (s0 # updates s0 us).
            0 \<le> currentPosition s \<and> currentPosition s \<le> totalWords s)
       \<and> (\<forall>s \<in> set (s0 # updates s0 us). \<forall>t u p.
            upd_currentPosition u = Some p \<and> (p < 0 \<or> totalWords s < p) \<longrightarrow>
              currentPosition (snd (updateState t u s)) \<noteq> p
              \<and> currentPosition (snd (updateState t u s))
                  = (if p < 0 then 0 else max 0 (totalWords s - 1)))"
proof -
  have tot: "0 \<le> totalWords s0" using AudioSession_new_total[OF assms] .
  have inv: "position_inv s \<and> totalWords s = totalWords s0" if "s \<in> set (s0 # updates s0 us)" for s
    using that AudioSession_new_inv[OF assms] updates_inv[of s0 s us] by auto
  have a: "0 \<le> currentPosition s \<and> currentPosition s \<le> totalWords s"
    if "s \<in> set (s0 # updates s0 us)" for s
    using inv[OF that] tot by (auto simp: position_inv_def)
  have b: "currentPosition (snd (updateState t u s)) \<noteq> p
       \<and> currentPosition (snd (updateState t u s)) = (if p < 0 then 0 else max 0 (totalWords s - 1))"
    if "s \<in> set (s0 # updates s0 us)" "upd_currentPosition u = Some p \<and> (p < 0 \<or> totalWords s < p)"
    for s t u p
  proof -
    have "0 \<le> totalWords s" using inv[OF that(1)] tot by simp
    with that(2) show ?thesis by (auto simp: updateState_sel)
  qed
  show ?thesis using a b by blast
qed

theorem session_position_bound_witness:
  "AudioSession_new (js ''session_1'') 0 (sample_params (js ''a b c'') 1) = Inr (sample_session 1)
   \<and> list_all (\<lambda>s. 0 \<le> currentPosition s \<and> currentPosition s \<le> totalWords s)
       (sample_session 1 # updates (sample_session 1) [(1, position_update 7), (2, position_update (- 3))])
   \<and> map currentPosition
       (sample_session 1 # updates (sample_session 1) [(1, position_update 7), (2, position_update (- 3))])
       = [1, 2, 0]
   \<and> currentPosition (snd (updateState 3 (position_update 7) (sample_session 1))) = 2"
proof -
  have new: "AudioSession_new (js ''session_1'') 0 (sample_params (js ''a b c'') 1) = Inr (sample_session 1)"
    using sample_session_new[of 1] by simp
  have tr: "updates (sample_session 1) [(1, position_update 7), (2, position_update (- 3))]
      = [(sample_session 2)\<lparr>lastActiveAt := 1\<rparr>, (sample_session 0)\<lparr>lastActiveAt := 2\<rparr>]"
    by (simp add: updateState_plain position_update_def no_update_def playbackFields_def
        sample_session_def)
  have sel: "currentPosition (sample_session i) = i" "totalWords (sample_session i) = 3" for i
    by (simp_all add: sample_session_def)
  have bound: "list_all (\<lambda>s. 0 \<le> currentPosition s \<and> currentPosition s \<le> totalWords s)
       (sample_session 1 # updates (sample_session 1) [(1, position_update 7), (2, position_update (- 3))])"
    using session_position_bound[OF new, of "[(1, position_update 7), (2, position_update (- 3))]"]
    unfolding list_all_iff by blast
  have pos: "map currentPosition
       (sample_session 1 # updates (sample_session 1) [(1, position_update 7), (2, position_update (- 3))])
       = [1, 2, 0]"
    unfolding tr by (simp add: sel)
  have "currentPosition (snd (updateState 3 (position_update 7) (sample_session 1))) = 2"
    by (simp add: sample_update sel)
  with new bound pos show ?thesis by (intro conjI)
qed
text \<open>
  C10 as stated fails on a non-empty text without a word: the text \<open>!\<close> has
  \<open>totalWords = 0\<close>, and the start index 0, which is not below \<open>totalWords\<close>, gives the
  position 0, not \<open>totalWords - 1 = -1\<close>; the interval from 0 to \<open>totalWords - 1\<close> is
  empty there.
\<close>

theorem start_index_no_words_counterexample:
  "map_sum id totalWords (AudioSession_new (js ''session_1'') 0 (sample_params (js ''!'') 0)) = Inr 0
   \<and> map_sum id currentPosition (AudioSession_new (js ''session_1'') 0 (sample_params (js ''!'') 0)) = Inr 0"
  by (simp add: AudioSession_new_def sample_params_def validateSpeed_def validateVolume_def
      parseFloat_def extractWords_def split_ws_def trim_def char_defs Let_def)

text \<open>
  C10, amended. With a content id, a page URL and a tab id given, a non-empty text and
  any integer start index: where the speed and the volume are in their ranges the
  construction succeeds, and the start index is never rejected but clamped: a negative
  one gives 0, one below \<open>totalWords\<close> is kept, and one that is \<open>totalWords\<close> or more
  gives \<open>totalWords - 1\<close>, or 0 where the text has no word. A speed or a volume out of
  its range makes the constructor throw instead.
\<close>

theorem start_index_coerced:
  assumes "\<not> falsy (arg_contentId a)" and "\<not> falsy (arg_pageUrl a)"
    and "arg_text a = Some t" and "t \<noteq> []" and "arg_tabId a = Some tab"
    and "arg_startWordIndex a = Some i"
    and "(case arg_speed a of None \<Rightarrow> Num 1 | Some v \<Rightarrow> v) = Num x"
    and "(case arg_volume a of None \<Rightarrow> Num 1 | Some v \<Rightarrow> v) = Num y"
  shows "(1/2 \<le> x \<and> x \<le> 2 \<and> 0 \<le> y \<and> y \<le> 1 \<longrightarrow>
            (\<exists>s. AudioSession_new newId now a = Inr s
               \<and> totalWords s = int (length (extractWords t))
               \<and> currentPosition s =
                   (if i < 0 then 0 else if i < totalWords s then i
                    else if totalWords s = 0 then 0 else totalWords s - 1)))
       \<and> (x < 1/2 \<or> 2 < x \<longrightarrow>
            AudioSession_new newId now a = Inl (Error ''Speed must be between 0.5 and 2.0''))
       \<and> (1/2 \<le> x \<and> x \<le> 2 \<and> (y < 0 \<or> 1 < y) \<longrightarrow>
            AudioSession_new newId now a = Inl (Error ''Volume must be between 0.0 and 1.0''))"
proof -
  have spd: "validateSpeed (case arg_speed a of None \<Rightarrow> Num 1.0 | Some v \<Rightarrow> v)
      = (if x < 1/2 \<or> 2 < x then Inl (Error ''Speed must be between 0.5 and 2.0'') else Inr x)"
    using assms(7) by (cases "arg_speed a") (simp_all add: validateSpeed_def parseFloat_def)
  have vol: "validateVolume (case arg_volume a of None \<Rightarrow> Num 1.0 | Some v \<Rightarrow> v)
      = (if y < 0 \<or> 1 < y then Inl (Error ''Volume must be between 0.0 and 1.0'') else Inr y)"
    using assms(8) by (cases "arg_volume a") (simp_all add: validateVolume_def parseFloat_def)
  have new: "AudioSession_new newId now a =
      (case validateSpeed (case arg_speed a of None \<Rightarrow> Num 1.0 | Some v \<Rightarrow> v) of
         Inl e \<Rightarrow> Inl e
       | Inr sp \<Rightarrow>
          (case validateVolume (case arg_volume a of None \<Rightarrow> Num 1.0 | Some v \<Rightarrow> v) of
             Inl e \<Rightarrow> Inl e
           | Inr vo \<Rightarrow>
               Inr \<lparr> sessionId = newId, contentId = the (arg_contentId a),
                     pageUrl = the (arg_pageUrl a), tabId = tab, text' = t,
                     words = extractWords t, totalWords = int (length (extractWords t)),
                     currentPosition = max 0 (min i (int (length (extractWords t)) - 1)),
                     isPlaying = False, isPaused = False, speed = sp, volume = vo,
                     createdAt = now, lastActiveAt = now \<rparr>))"
    using assms(1-6) by (simp add: AudioSession_new_def Let_def)
  show ?thesis
  proof (intro conjI impI)
    assume ok: "1/2 \<le> x \<and> x \<le> 2 \<and> 0 \<le> y \<and> y \<le> 1"
    then obtain s where s: "AudioSession_new newId now a = Inr s"
      unfolding new spd vol by (simp add: not_less)
    have "totalWords s = int (length (extractWords t))"
      and "currentPosition s = max 0 (min i (totalWords s - 1))"
      using AudioSession_new_Inr[OF s] assms(3,6) by simp_all
    then have "totalWords s = int (length (extractWords t))
       \<and> currentPosition s = (if i < 0 then 0 else if i < totalWords s then i
             else if totalWords s = 0 then 0 else totalWords s - 1)"
      by auto
    with s show "\<exists>s. AudioSession_new newId now a = Inr s
                 \<and> totalWords s = int (length (extractWords t))
                 \<and> currentPosition s =
                     (if i < 0 then 0 else if i < totalWords s then i
                      else if totalWords s = 0 then 0 else totalWords s - 1)"
      by blast
  next
    assume "x < 1/2 \<or> 2 < x"
    then show "AudioSession_new newId now a = Inl (Error ''Speed must be between 0.5 and 2.0'')"
      unfolding new spd by simp
  next
    assume "1/2 \<le> x \<and> x \<le> 2 \<and> (y < 0 \<or> 1 < y)"
    then show "AudioSession_new newId now a = Inl (Error ''Volume must be between 0.0 and 1.0'')"
      unfolding new spd vol by (simp add: not_less)
  qed
qed

theorem start_index_coerced_witness:
  "AudioSession_new (js ''session_1'') 0 (sample_params (js ''a b c'') 7) = Inr (sample_session 2)
   \<and> AudioSession_new (js ''session_1'') 0 (sample_params (js ''a b c'') (- 4)) = Inr (sample_session 0)
   \<and> AudioSession_new (js ''session_1'') 0
        ((sample_params (js ''a b c'') 7)\<lparr>arg_speed := Some (Num (5/2))\<rparr>)
       = Inl (Error ''Speed must be between 0.5 and 2.0'')"
proof -
  have ne: "js ''a b c'' \<noteq> []" "js ''content_1'' \<noteq> []" "js ''unknown'' \<noteq> []"
    by (simp_all add: js_def)
  have "AudioSession_new (js ''session_1'') 0
        ((sample_params (js ''a b c'') 7)\<lparr>arg_speed := Some (Num (5/2))\<rparr>)
       = Inl (Error ''Speed must be between 0.5 and 2.0'')"
    using start_index_coerced[of "(sample_params (js ''a b c'') 7)\<lparr>arg_speed := Some (Num (5/2))\<rparr>"
        "js ''a b c''" 1 7 "5/2" 1 "js ''session_1''" 0] ne
    by (simp add: sample_params_def)
  then show ?thesis using sample_session_new[of 7] sample_session_new[of "- 4"] by simp
qed
section \<open>Properties of SpeechController\<close>

lemma session_update_plain:
  assumes "upd_speed u = None" "upd_volume u = None"
  shows "session_update r now u st =
           (None, st\<lparr>heap := (heap st)[r := (playbackFields u (heap st ! r))\<lparr>lastActiveAt := now\<rparr>]\<rparr>)"
  using assms by (simp add: session_update_def updateState_plain)

lemma updateState_speed_rejected:
  assumes "validateSpeed v = Inl e"
  shows "updateState now (no_update\<lparr>upd_speed := Some v\<rparr>) s = (Some e, s)"
  using assms by (simp add: updateState_alt assignSpeed_def playbackFields_def no_update_def)

lemma updateState_volume_rejected:
  assumes "validateVolume v = Inl e"
  shows "updateState now (no_update\<lparr>upd_volume := Some v\<rparr>) s = (Some e, s)"
  using assms by (simp add: updateState_alt assignSpeed_def assignVolume_def playbackFields_def
      no_update_def)

lemma pauseSpeech_registered:
  assumes "getSession st sid = Inr r"
  shows "pauseSpeech now sid st =
     (None,
      (if currentSessionId st = Some sid \<and> synth_speaking st
       then st\<lparr>synth_calls := synth_calls st @ [Pause]\<rparr> else st)
      \<lparr>heap := (heap st)[r := (heap st ! r)\<lparr>isPlaying := False, isPaused := True, lastActiveAt := now\<rparr>]\<rparr>)"
  using assms
  by (simp add: pauseSpeech_def session_update_plain no_update_def playbackFields_def)

text \<open>
  C5 (pause idempotence and resume guard). For a registered session, \<open>pauseSpeech\<close>
  called twice, whatever the engine's flags show in between, raises no error either
  time; after the first call the session has \<open>isPlaying = False\<close> and
  \<open>isPaused = True\<close>, and the second call changes nothing of it but the time of its
  last activity, and nothing of the registry or of the engine focus. \<open>resumeSpeech\<close> on
  a registered session that is not paused fails with the invalid-state error and leaves
  the whole controller, so the session's two flags, as it was.
\<close>

theorem pause_idempotent_resume_guarded:
  assumes "getSession st sid = Inr r" and "r < length (heap st)"
  shows "fst (pauseSpeech t1 sid st) = None
       \<and> isPlaying (heap (snd (pauseSpeech t1 sid st)) ! r) = False
       \<and> isPaused (heap (snd (pauseSpeech t1 sid st)) ! r) = True
       \<and> fst (pauseSpeech t2 sid ((snd (pauseSpeech t1 sid st))\<lparr>synth_speaking := sp, synth_paused := pa\<rparr>)) = None
       \<and> heap (snd (pauseSpeech t2 sid ((snd (pauseSpeech t1 sid st))\<lparr>synth_speaking := sp, synth_paused := pa\<rparr>)))
           = (heap (snd (pauseSpeech t1 sid st)))
               [r := (heap (snd (pauseSpeech t1 sid st)) ! r)\<lparr>lastActiveAt := t2\<rparr>]
       \<and> activeSessions (snd (pauseSpeech t2 sid ((snd (pauseSpeech t1 sid st))\<lparr>synth_speaking := sp, synth_paused := pa\<rparr>)))
           = activeSessions (snd (pauseSpeech t1 sid st))
       \<and> currentSessionId (snd (pauseSpeech t2 sid ((snd (pauseSpeech t1 sid st))\<lparr>synth_speaking := sp, synth_paused := pa\<rparr>)))
           = currentSessionId (snd (pauseSpeech t1 sid st))
       \<and> (\<not> isPaused (heap st ! r) \<longrightarrow>
            resumeSpeech p now sid st
              = (Some (Error ''Invalid session state - session is not paused''), st))"
proof -
  let ?st1 = "snd (pauseSpeech t1 sid st)"
  let ?st1' = "?st1\<lparr>synth_speaking := sp, synth_paused := pa\<rparr>"
  have one: "pauseSpeech t1 sid st =
     (None,
      (if currentSessionId st = Some sid \<and> synth_speaking st
       then st\<lparr>synth_calls := synth_calls st @ [Pause]\<rparr> else st)
      \<lparr>heap := (heap st)[r := (heap st ! r)\<lparr>isPlaying := False, isPaused := True, lastActiveAt := t1\<rparr>]\<rparr>)"
    using pauseSpeech_registered[OF assms(1)] .
  have h1: "heap ?st1 = (heap st)[r := (heap st ! r)\<lparr>isPlaying := False, isPaused := True, lastActiveAt := t1\<rparr>]"
    and a1: "activeSessions ?st1 = activeSessions st"
    and c1: "currentSessionId ?st1 = currentSessionId st"
    unfolding one by simp_all
  have reg1: "getSession ?st1' sid = Inr r"
    using assms(1) a1 by (simp add: getSession_def)
  have two: "pauseSpeech t2 sid ?st1' =
     (None,
      (if currentSessionId ?st1' = Some sid \<and> synth_speaking ?st1'
       then ?st1'\<lparr>synth_calls := synth_calls ?st1' @ [Pause]\<rparr> else ?st1')
      \<lparr>heap := (heap ?st1')[r := (heap ?st1' ! r)\<lparr>isPlaying := False, isPaused := True, lastActiveAt := t2\<rparr>]\<rparr>)"
    using pauseSpeech_registered[OF reg1] .
  have at_r: "heap ?st1 ! r = (heap st ! r)\<lparr>isPlaying := False, isPaused := True, lastActiveAt := t1\<rparr>"
    unfolding h1 using assms(2) by simp
  have "heap (snd (pauseSpeech t2 sid ?st1')) = (heap ?st1)[r := (heap ?st1 ! r)\<lparr>lastActiveAt := t2\<rparr>]"
    unfolding two by (simp add: at_r)
  moreover have "activeSessions (snd (pauseSpeech t2 sid ?st1')) = activeSessions ?st1"
    "currentSessionId (snd (pauseSpeech t2 sid ?st1')) = currentSessionId ?st1"
    unfolding two by simp_all
  moreover have "fst (pauseSpeech t2 sid ?st1') = None" unfolding two by simp
  moreover have "fst (pauseSpeech t1 sid st) = None" unfolding one by simp
  moreover have "isPlaying (heap ?st1 ! r) = False" "isPaused (heap ?st1 ! r) = True"
    by (simp_all add: at_r)
  moreover have "\<not> isPaused (heap st ! r) \<longrightarrow>
      resumeSpeech p now sid st = (Some (Error ''Invalid session state - session is not paused''), st)"
    using assms(1) by (simp add: resumeSpeech_def)
  ultimately show ?thesis by (intro conjI)
qed

lemma sample_controller_registered:
  "getSession (sample_controller s) (js ''session_1'') = Inr 0"
  "heap (sample_controller s) = [s]"
  by (simp_all add: sample_controller_def getSession_def)

theorem pause_idempotent_resume_guarded_witness:
  "getSession (sample_controller (sample_session 1)) (js ''session_1'') = Inr 0
   \<and> fst (pauseSpeech 5 (js ''session_1'') (sample_controller (sample_session 1))) = None
   \<and> heap (snd (pauseSpeech 5 (js ''session_1'') (sample_controller (sample_session 1))))
       = [(sample_session 1)\<lparr>isPlaying := False, isPaused := True, lastActiveAt := 5\<rparr>]
   \<and> heap (snd (pauseSpeech 9 (js ''session_1'')
        ((snd (pauseSpeech 5 (js ''session_1'') (sample_controller (sample_session 1))))
           \<lparr>synth_speaking := True, synth_paused := True\<rparr>)))
       = [(sample_session 1)\<lparr>isPlaying := False, isPaused := True, lastActiveAt := 9\<rparr>]
   \<and> resumeSpeech sample_platform 5 (js ''session_1'') (sample_controller (sample_session 1))
       = (Some (Error ''Invalid session state - session is not paused''),
          sample_controller (sample_session 1))"
proof -
  let ?st = "sample_controller (sample_session 1)"
  have reg: "getSession ?st (js ''session_1'') = Inr 0"
    and len: "0 < length (heap ?st)"
    by (simp_all add: sample_controller_registered)
  have np: "\<not> isPaused (heap ?st ! 0)"
    by (simp add: sample_controller_registered sample_session_def)
  have h1: "heap (snd (pauseSpeech 5 (js ''session_1'') ?st))
       = [(sample_session 1)\<lparr>isPlaying := False, isPaused := True, lastActiveAt := 5\<rparr>]"
    by (simp add: pauseSpeech_registered[OF reg] sample_controller_registered)
  from pause_idempotent_resume_guarded[OF reg len, of 5 9 True True sample_platform 5] np h1 reg
  show ?thesis by simp
qed

text \<open>
  C6 (speed and volume validation). For a registered session, \<open>setSpeed\<close> with a value
  below 0.5 or above 2.0 and \<open>setVolume\<close> with a value below 0.0 or above 1.0 fail with
  the invalid-value error and leave the whole controller as it was: the session keeps
  its speed and its volume, nothing is clamped. A value that is not a number is
  rejected too, by the session's own validation, and changes nothing either.
\<close>

theorem speed_volume_rejected_unchanged:
  assumes "getSession st sid = Inr r"
  shows "(x < 1/2 \<or> 2 < x \<longrightarrow>
            setSpeed p now sid (Num x) st
              = (Some (Error ''Invalid speed value - must be between 0.5 and 2.0''), st))
       \<and> (y < 0 \<or> 1 < y \<longrightarrow>
            setVolume now sid (Num y) st
              = (Some (Error ''Invalid volume value - must be between 0.0 and 1.0''), st))
       \<and> setSpeed p now sid NaN st = (Some (Error ''Speed must be a number''), st)
       \<and> setVolume now sid NaN st = (Some (Error ''Volume must be a number''), st)"
proof -
  have upd: "st\<lparr>heap := (heap st)[r := heap st ! r]\<rparr> = st" by simp
  have "setSpeed p now sid NaN st = (Some (Error ''Speed must be a number''), st)"
    using assms
    by (simp add: setSpeed_def session_update_def upd
        updateState_speed_rejected[of NaN "Error ''Speed must be a number''"]
        validateSpeed_def parseFloat_def)
  moreover have "setVolume now sid NaN st = (Some (Error ''Volume must be a number''), st)"
    using assms
    by (simp add: setVolume_def session_update_def upd
        updateState_volume_rejected[of NaN "Error ''Volume must be a number''"]
        validateVolume_def parseFloat_def)
  moreover have "x < 1/2 \<or> 2 < x \<longrightarrow> setSpeed p now sid (Num x) st
      = (Some (Error ''Invalid speed value - must be between 0.5 and 2.0''), st)"
    using assms by (simp add: setSpeed_def)
  moreover have "y < 0 \<or> 1 < y \<longrightarrow> setVolume now sid (Num y) st
      = (Some (Error ''Invalid volume value - must be between 0.0 and 1.0''), st)"
    using assms by (simp add: setVolume_def)
  ultimately show ?thesis by (intro conjI)
qed

theorem speed_volume_rejected_unchanged_witness:
  "getSession (sample_controller (sample_session 1)) (js ''session_1'') = Inr 0
   \<and> setSpeed sample_platform 5 (js ''session_1'') (Num (5/2)) (sample_controller (sample_session 1))
       = (Some (Error ''Invalid speed value - must be between 0.5 and 2.0''),
          sample_controller (sample_session 1))
   \<and> setVolume 5 (js ''session_1'') (Num (3/2)) (sample_controller (sample_session 1))
       = (Some (Error ''Invalid volume value - must be between 0.0 and 1.0''),
          sample_controller (sample_session 1))
   \<and> speed (heap (snd (setSpeed sample_platform 5 (js ''session_1'') (Num (5/2))
        (sample_controller (sample_session 1)))) ! 0) = 1"
proof -
  have reg: "getSession (sample_controller (sample_session 1)) (js ''session_1'') = Inr 0"
    by (simp add: sample_controller_registered)
  from speed_volume_rejected_unchanged[OF reg, of "5/2" sample_platform 5 "3/2"] reg
  show ?thesis by (simp add: sample_controller_registered sample_session_def)
qed

text \<open>
  C7 (session limit). With the registry at its limit, ten sessions for the controller
  the constructor builds, \<open>startSpeech\<close> fails whatever the request: no session object
  is created, nothing is registered and the count stays what it was. The error is the
  session-limit error as soon as the request passes \<open>_validateStartRequest\<close> and the
  platform supports speech, the two checks the code makes before it looks at the limit.
\<close>

theorem session_limit_enforced:
  assumes "length (activeSessions st) = maxConcurrentSessions st"
  shows "snd (startSpeech p newId now request st) = st
       \<and> getActiveSessionCount (snd (startSpeech p newId now request st)) = maxConcurrentSessions st
       \<and> (\<exists>e. fst (startSpeech p newId now request st) = Inl e)
       \<and> (validateStartRequest request = None \<and> isSpeechSupported p \<longrightarrow>
            fst (startSpeech p newId now request st) = Inl (SessionLimitError (maxConcurrentSessions st)))"
proof (cases "validateStartRequest request")
  case None
  then show ?thesis using assms
    by (cases "isSpeechSupported p") (simp_all add: startSpeech_def getActiveSessionCount_def)
next
  case (Some e)
  then show ?thesis using assms by (simp add: startSpeech_def getActiveSessionCount_def)
qed

theorem session_limit_enforced_witness:
  "length (activeSessions full_controller) = maxConcurrentSessions full_controller
   \<and> startSpeech sample_platform (js ''session_11'') 5 (Some sample_request) full_controller
       = (Inl (SessionLimitError 10), full_controller)
   \<and> getActiveSessionCount
        (snd (startSpeech sample_platform (js ''session_11'') 5 (Some sample_request) full_controller))
       = 10"
proof -
  have full: "length (activeSessions full_controller) = maxConcurrentSessions full_controller"
    and ten: "maxConcurrentSessions full_controller = 10"
    by (simp_all add: full_controller_def SpeechController_new_def)
  have ok: "validateStartRequest (Some sample_request) = None" "isSpeechSupported sample_platform"
    by (simp_all add: validateStartRequest_def sample_request_def isSpeechSupported_def
        sample_platform_def js_def)
  from session_limit_enforced[OF full, of sample_platform "js ''session_11''" 5 "Some sample_request"]
    ok full ten
  show ?thesis by (auto simp: prod_eq_iff)
qed

subsection \<open>The callbacks\<close>

lemma broadcastSessionUpdate_sel:
  "heap (broadcastSessionUpdate r st) = heap st"
  "currentSessionId (broadcastSessionUpdate r st) = currentSessionId st"
  "currentUtterance (broadcastSessionUpdate r st) = currentUtterance st"
  "activeSessions (broadcastSessionUpdate r st) = activeSessions st"
  by (simp_all add: broadcastSessionUpdate_def)

lemma session_update_heap:
  "heap (snd (session_update r now u st)) = (heap st)[r := snd (updateState now u (heap st ! r))]"
  by (simp add: session_update_def split_beta)

lemma utterance_onend_heap:
  "heap (utterance_onend r now st) =
     (heap st)[r := snd (updateState now
        (no_update\<lparr>upd_isPlaying := Some False, upd_isPaused := Some False,
                    upd_currentPosition := Some (totalWords (heap st ! r))\<rparr>) (heap st ! r))]"
  by (simp add: utterance_onend_def Let_def broadcastSessionUpdate_sel session_update_heap)

text \<open>
  What the completion callback leaves in the session: both flags false, and the position
  at the last word, not at \<open>totalWords\<close>, because \<open>updateState\<close> clamps what the callback
  passes.
\<close>

lemma utterance_onend_session:
  assumes "r < length (heap st)"
  shows "isPlaying (heap (utterance_onend r now st) ! r) = False"
    and "isPaused (heap (utterance_onend r now st) ! r) = False"
    and "currentPosition (heap (utterance_onend r now st) ! r) = max 0 (totalWords (heap st ! r) - 1)"
    and "totalWords (heap (utterance_onend r now st) ! r) = totalWords (heap st ! r)"
    and "currentSessionId (utterance_onend r now st) \<noteq> Some (sessionId (heap st ! r))"
  using assms
  by (simp_all add: utterance_onend_heap updateState_sel no_update_def)
     (simp add: utterance_onend_def Let_def broadcastSessionUpdate_sel session_update_heap
        session_update_def split_beta updateState_sel)

lemma utterance_onboundary_heap:
  "heap (utterance_onboundary r now ev st) =
     (if ev_name ev = js ''word''
      then (heap st)[r := snd (updateState now
              (no_update\<lparr>upd_currentPosition := Some (calculateWordIndex (ev_charIndex ev) (heap st ! r))\<rparr>)
              (heap st ! r))]
      else heap st)"
  by (simp add: utterance_onboundary_def Let_def broadcastSessionUpdate_sel session_update_heap)

lemma calculateWordIndex_ge: "currentPosition s \<le> calculateWordIndex c s"
  by (simp add: calculateWordIndex_def Let_def)

lemma utterance_onboundary_step:
  assumes "r < length (heap st)" and "position_inv (heap st ! r)"
  shows "length (heap (utterance_onboundary r now ev st)) = length (heap st)"
    and "position_inv (heap (utterance_onboundary r now ev st) ! r)"
    and "currentPosition (heap st ! r) \<le> currentPosition (heap (utterance_onboundary r now ev st) ! r)"
proof -
  show "length (heap (utterance_onboundary r now ev st)) = length (heap st)"
    by (simp add: utterance_onboundary_heap)
  show "position_inv (heap (utterance_onboundary r now ev st) ! r)"
    using assms by (simp add: utterance_onboundary_heap updateState_inv)
  have "currentPosition (heap st ! r) \<le> max 0 (min (calculateWordIndex (ev_charIndex ev) (heap st ! r))
      (totalWords (heap st ! r) - 1))"
    using assms(2) calculateWordIndex_ge[of "heap st ! r" "ev_charIndex ev"]
    by (auto simp: position_inv_def)
  then show "currentPosition (heap st ! r) \<le> currentPosition (heap (utterance_onboundary r now ev st) ! r)"
    using assms(1) by (simp add: utterance_onboundary_heap updateState_sel no_update_def)
qed

lemma boundaries_monotone:
  assumes "r < length (heap st)" and "position_inv (heap st ! r)"
  shows "sorted (map (\<lambda>c. currentPosition (heap c ! r)) (st # boundaries r evs st))"
  using assms
proof (induction evs arbitrary: st)
  case Nil
  then show ?case by simp
next
  case (Cons e evs)
  obtain now ev where e: "e = (now, ev)" by (cases e)
  let ?st1 = "utterance_onboundary r now ev st"
  have step: "r < length (heap ?st1)" "position_inv (heap ?st1 ! r)"
    "currentPosition (heap st ! r) \<le> currentPosition (heap ?st1 ! r)"
    using utterance_onboundary_step[OF Cons.prems, of now ev] Cons.prems(1) by simp_all
  have tl: "sorted (map (\<lambda>c. currentPosition (heap c ! r)) (?st1 # boundaries r evs ?st1))"
    using Cons.IH[OF step(1,2)] .
  then have "\<forall>x \<in> set (map (\<lambda>c. currentPosition (heap c ! r)) (?st1 # boundaries r evs ?st1)).
      currentPosition (heap st ! r) \<le> x"
    using step(3) by (auto simp del: set_map)
  with tl show ?case by (simp add: e Let_def del: set_map)
qed

text \<open>
  C9 (boundary-update monotonicity). For every session the constructor built, however
  it was updated since, and every sequence of boundary events on its utterance, with
  any character indices, the position after each event is at least the position
  before it.
\<close>

theorem boundary_updates_monotone:
  assumes "r < length (heap st)"
    and "AudioSession_new newId t0 a = Inr s0"
    and "heap st ! r \<in> set (s0 # updates s0 us)"
  shows "sorted (map (\<lambda>c. currentPosition (heap c ! r)) (st # boundaries r evs st))"
proof -
  have "position_inv (heap st ! r)"
    using assms(3) AudioSession_new_inv[OF assms(2)] updates_inv[of s0 "heap st ! r" us] by auto
  with assms(1) show ?thesis by (rule boundaries_monotone)
qed

lemma sample_calculateWordIndex:
  "calculateWordIndex 2 ((sample_session 0)\<lparr>lastActiveAt := t\<rparr>) = 1"
  "calculateWordIndex 4 ((sample_session 1)\<lparr>lastActiveAt := t\<rparr>) = 2"
  "calculateWordIndex 1 ((sample_session 2)\<lparr>lastActiveAt := t\<rparr>) = 2"
  by (simp_all add: calculateWordIndex_def getRemainingText_def slice_from_def sample_session_def substring_def
      split_ws_def Let_def char_defs)

lemma sample_update_touched:
  "snd (updateState now (no_update\<lparr>upd_currentPosition := Some p\<rparr>) ((sample_session i)\<lparr>lastActiveAt := t\<rparr>))
     = (sample_session (max 0 (min p 2)))\<lparr>lastActiveAt := now\<rparr>"
  by (simp add: updateState_plain no_update_def playbackFields_def sample_session_def)

lemma sample_boundaries:
  "map heap
     (boundaries 0 [(1, word_event 2), (2, word_event 4), (3, word_event 1)]
        (sample_controller ((sample_session 0)\<lparr>lastActiveAt := 0\<rparr>)))
   = [[(sample_session 1)\<lparr>lastActiveAt := 1\<rparr>], [(sample_session 2)\<lparr>lastActiveAt := 2\<rparr>],
      [(sample_session 2)\<lparr>lastActiveAt := 3\<rparr>]]"
  by (simp add: Let_def utterance_onboundary_heap sample_controller_registered
      sample_calculateWordIndex sample_update_touched word_event_def)

theorem boundary_updates_monotone_witness:
  "AudioSession_new (js ''session_1'') 0 (sample_params (js ''a b c'') 0) = Inr (sample_session 0)
   \<and> sorted (map (\<lambda>c. currentPosition (heap c ! 0))
        (sample_controller (sample_session 0)
         # boundaries 0 [(1, word_event 2), (2, word_event 4), (3, word_event 1)]
             (sample_controller (sample_session 0))))
   \<and> map (\<lambda>c. currentPosition (heap c ! 0))
        (boundaries 0 [(1, word_event 2), (2, word_event 4), (3, word_event 1)]
           (sample_controller (sample_session 0)))
       = [1, 2, 2]"
proof -
  let ?evs = "[(1, word_event 2), (2, word_event 4), (3, word_event 1)]"
  have new: "AudioSession_new (js ''session_1'') 0 (sample_params (js ''a b c'') 0) = Inr (sample_session 0)"
    using sample_session_new[of 0] by simp
  have len: "0 < length (heap (sample_controller (sample_session 0)))"
    and mem: "heap (sample_controller (sample_session 0)) ! 0 \<in> set (sample_session 0 # updates (sample_session 0) [])"
    by (simp_all add: sample_controller_registered)
  have touch: "(sample_session 0)\<lparr>lastActiveAt := 0\<rparr> = sample_session 0"
    by (simp add: sample_session_def)
  have "map (\<lambda>c. currentPosition (heap c ! 0)) (boundaries 0 ?evs (sample_controller (sample_session 0)))
      = map (\<lambda>h. currentPosition (h ! 0)) (map heap (boundaries 0 ?evs (sample_controller (sample_session 0))))"
    by (simp add: comp_def)
  also have "\<dots> = [1, 2, 2]"
    using sample_boundaries unfolding touch by (simp add: sample_session_def)
  finally have pos: "map (\<lambda>c. currentPosition (heap c ! 0))
      (boundaries 0 ?evs (sample_controller (sample_session 0))) = [1, 2, 2]" .
  from boundary_updates_monotone[OF len new mem, of ?evs] new pos
  show ?thesis by (intro conjI)
qed

text \<open>
  C3 at a concrete input. A session is started on the text \<open>a b c\<close>, three words, and
  the engine reports the end of its utterance. The callback passes \<open>totalWords\<close> to
  \<open>updateState\<close>, which clamps it to \<open>totalWords - 1\<close>: the session is left at position 2
  of 3 and \<open>isComplete\<close> is false. Both flags are false and the engine focus is released.
\<close>

theorem onend_leaves_position_before_total:
  "fst (startSpeech sample_platform (js ''session_1'') 0 (Some sample_request) SpeechController_new)
     = Inr 0
   \<and> totalWords (heap (utterance_onend 0 9
        (snd (startSpeech sample_platform (js ''session_1'') 0 (Some sample_request)
               SpeechController_new))) ! 0) = 3
   \<and> currentPosition (heap (utterance_onend 0 9
        (snd (startSpeech sample_platform (js ''session_1'') 0 (Some sample_request)
               SpeechController_new))) ! 0) = 2
   \<and> isComplete (heap (utterance_onend 0 9
        (snd (startSpeech sample_platform (js ''session_1'') 0 (Some sample_request)
               SpeechController_new))) ! 0) = False
   \<and> isPlaying (heap (utterance_onend 0 9
        (snd (startSpeech sample_platform (js ''session_1'') 0 (Some sample_request)
               SpeechController_new))) ! 0) = False
   \<and> isPaused (heap (utterance_onend 0 9
        (snd (startSpeech sample_platform (js ''session_1'') 0 (Some sample_request)
               SpeechController_new))) ! 0) = False
   \<and> currentSessionId (utterance_onend 0 9
        (snd (startSpeech sample_platform (js ''session_1'') 0 (Some sample_request)
               SpeechController_new))) = None
   \<and> currentUtterance (utterance_onend 0 9
        (snd (startSpeech sample_platform (js ''session_1'') 0 (Some sample_request)
               SpeechController_new))) = None"
proof -
  have ne: "js ''a b c'' \<noteq> []" "js ''content_1'' \<noteq> []" "js ''unknown'' \<noteq> []" "trim (js ''a b c'') \<noteq> []"
    by (simp_all add: js_def trim_def isSpace_def)
  have voice: "getBestVoice sample_platform (js ''en-US'')
      = Inr (Some \<lparr> voice_name = js ''Test Voice'', lang = js ''en-US'', localService = True \<rparr>)"
    by (simp add: getBestVoice_def sample_platform_def js_def)
  have new: "AudioSession_new (js ''session_1'') 0
       \<lparr> arg_contentId = Some (js ''content_1''), arg_pageUrl = Some (js ''unknown''),
         arg_text = Some (js ''a b c''), arg_startWordIndex = Some 0,
         arg_speed = Some (Num 1), arg_volume = Some (Num 1), arg_tabId = Some 1 \<rparr>
      = Inr (sample_session 0)"
    using ne
    by (simp add: AudioSession_new_def sample_session_def extractWords_abc
        validateSpeed_def validateVolume_def parseFloat_def)
  have rem: "getRemainingText (sample_session 0) = js ''a b c''"
    by (simp add: getRemainingText_def slice_from_def sample_session_def js_def)
  have start: "startSpeech sample_platform (js ''session_1'') 0 (Some sample_request) SpeechController_new
      = (Inr 0,
         SpeechController_new
           \<lparr>heap := [(sample_session 0)\<lparr>isPlaying := True, isPaused := False, lastActiveAt := 0\<rparr>],
            activeSessions := [(js ''session_1'', 0)],
            currentUtterance := Some \<lparr> utt_text = js ''a b c'',
               utt_voice = Some \<lparr> voice_name = js ''Test Voice'', lang = js ''en-US'', localService = True \<rparr>,
               utt_rate = 1, utt_volume = 1, utt_pitch = 1, utt_session = 0 \<rparr>,
            currentSessionId := Some (js ''session_1''),
            synth_calls := [Speak \<lparr> utt_text = js ''a b c'',
               utt_voice = Some \<lparr> voice_name = js ''Test Voice'', lang = js ''en-US'', localService = True \<rparr>,
               utt_rate = 1, utt_volume = 1, utt_pitch = 1, utt_session = 0 \<rparr>]\<rparr>)"
    using ne
    by (simp add: startSpeech_def validateStartRequest_def sample_request_def isSpeechSupported_def
        sample_platform_def[THEN arg_cong, of globalSpeech] sample_platform_def[THEN arg_cong, of globalUtterance]
        sample_platform_def[THEN arg_cong, of hasWindow] sample_platform_def[THEN arg_cong, of windowSpeech]
        sample_platform_def[THEN arg_cong, of windowUtterance]
        SpeechController_new_def voice new startSpeechSynthesis_def rem[unfolded sample_session_def]
        session_update_plain
        no_update_def playbackFields_def Let_def sample_session_def)
  show ?thesis
    unfolding start
    by (simp add: utterance_onend_def session_update_plain no_update_def playbackFields_def
        broadcastSessionUpdate_def SpeechController_new_def sample_session_def isComplete_def Let_def)
qed
section \<open>Properties of the content density score\<close>

lemma foldl_add_lengths:
  "foldl (\<lambda>total link. total + length (orEmpty link)) a ls
     = a + sum_list (map (\<lambda>l. length (orEmpty l)) ls)"
  by (induction ls arbitrary: a) simp_all

text \<open>Adding a double to 0 gives the double: \<open>score += x\<close> on \<open>score = 0\<close>.\<close>

lemma fadd_zero_fdiv: "fadd 0 (fdiv a b) = fdiv a b"
  by (simp add: fadd_def fdiv_def rnd_idem)

lemma calculateContentScore_spec:
  "calculateContentScore (Some e)
     = max 0 (score_spec (textLength e) (paragraphs e) (linkTextLength e) (children e))"
proof -
  have half: "fmul x (1/2) = fdiv x 2" for x by (simp add: fmul_def fdiv_def)
  have comm: "fmul x 25 = fmul 25 x" for x by (simp add: fmul_def mult.commute)
  show ?thesis
    by (simp add: calculateContentScore_def score_spec_def textLength_def linkTextLength_def
        linkDensity_def foldl_add_lengths fadd_zero_fdiv half comm Let_def)
qed

lemma sample_lengths:
  "textLength padded_link = 1" "linkTextLength padded_link = 3"
  "paragraphs padded_link = 0" "children padded_link = 1"
  "textLength linked_div = 5" "linkTextLength linked_div = 3"
  "paragraphs linked_div = 0" "children linked_div = 1"
  "textLength link_list = 30" "linkTextLength link_list = 20"
  "paragraphs link_list = 1" "children link_list = 21"
  by (simp_all add: textLength_def linkTextLength_def padded_link_def linked_div_def
      link_list_def trim_def char_defs)

lemma sample_scores:
  "score_spec (textLength padded_link) (paragraphs padded_link)
     (linkTextLength padded_link) (children padded_link)
     = - (5764607523034235 / 72057594037927936)"
  "score_spec (textLength linked_div) (paragraphs linked_div)
     (linkTextLength linked_div) (children linked_div)
     = 1441151880758559 / 18014398509481984"
  "score_spec (textLength link_list) (paragraphs link_list)
     (linkTextLength link_list) (children link_list)
     = 614553699151599 / 140737488355328"
  unfolding sample_lengths by code_simp+

text \<open>
  C8 as stated fails where the links hold more text than the trimmed text of the
  element, as for a link padded with white space: the link density is 3, the formula
  gives \<open>0.04 \<times> (1 - 3)\<close>, the double \<open>-0.08\<close>, and the code returns 0.
\<close>

theorem content_score_counterexample:
  "calculateContentScore (Some padded_link) = 0
   \<and> score_spec (textLength padded_link) (paragraphs padded_link)
        (linkTextLength padded_link) (children padded_link)
       = - (5764607523034235 / 72057594037927936)"
  by (simp add: calculateContentScore_spec sample_scores)

text \<open>
  C8, amended. For every element the score is the formula of the specification clamped
  at 0: \<open>textLength/25 + 25 \<times> paragraphCount\<close>, multiplied by \<open>1 - linkDensity\<close> when
  the link density \<open>linkTextLength/textLength\<close> exceeds 0.5, then halved when the
  element has more than 20 children and \<open>textLength/childCount < 50\<close>, and 0 where that
  is negative. So the result is never negative. A missing element scores 0.
\<close>

theorem content_score_clamped:
  "calculateContentScore (Some e)
     = max 0 (score_spec (textLength e) (paragraphs e) (linkTextLength e) (children e))
   \<and> 0 \<le> calculateContentScore el
   \<and> calculateContentScore None = 0"
proof -
  have "0 \<le> calculateContentScore el"
    by (cases el) (simp_all add: calculateContentScore_def Let_def)
  moreover have "calculateContentScore None = 0" by (simp add: calculateContentScore_def)
  ultimately show ?thesis using calculateContentScore_spec by blast
qed

text \<open>
  The three elements: the link penalty alone gives \<open>0.08000000000000002\<close>; the
  paragraph bonus, the link penalty and the halving together give
  \<open>4.366666666666667\<close>; the clamp gives 0.
\<close>

theorem content_score_clamped_witness:
  "calculateContentScore (Some linked_div) = 1441151880758559 / 18014398509481984
   \<and> calculateContentScore (Some link_list) = 614553699151599 / 140737488355328
   \<and> calculateContentScore (Some padded_link) = 0
   \<and> 0 \<le> calculateContentScore (Some padded_link)"
  using content_score_clamped[of linked_div "Some padded_link"]
    content_score_clamped[of link_list "Some padded_link"]
    content_score_clamped[of padded_link "Some padded_link"]
  by (simp add: sample_scores)
section \<open>Properties of the sentence segmenter\<close>

lemma takeWhile_nth_holds: "j < length (takeWhile P xs) \<Longrightarrow> P (xs ! j)"
  by (metis nth_mem set_takeWhileD takeWhile_nth)

lemma regexExec_None:
  assumes "regexExec txt k = None" and "k \<le> j" and "j < length txt"
  shows "\<not> isTerminal (txt ! j)"
proof -
  let ?xs = "drop k txt"
  from assms(1) have "length ?xs \<le> length (takeWhile (\<lambda>c. \<not> isTerminal c) ?xs)"
    by (auto simp: regexExec_def Let_def split: if_splits)
  then have "takeWhile (\<lambda>c. \<not> isTerminal c) ?xs = ?xs"
    using length_takeWhile_le[of "\<lambda>c. \<not> isTerminal c" ?xs]
    by (metis le_antisym takeWhile_eq_take take_all)
  then have all: "\<forall>c \<in> set ?xs. \<not> isTerminal c" by (simp add: takeWhile_eq_all_conv)
  have "txt ! j = ?xs ! (j - k)" using assms(2,3) by simp
  moreover have "j - k < length ?xs" using assms(2,3) by simp
  ultimately have "txt ! j \<in> set ?xs" by (metis nth_mem)
  with all show ?thesis by blast
qed

lemma regexExec_Some:
  assumes "regexExec txt k = Some (i, l)"
  shows "k \<le> i" and "i < length txt" and "0 < l" and "i + l \<le> length txt"
    and "\<And>j. k \<le> j \<Longrightarrow> j < i \<Longrightarrow> \<not> isTerminal (txt ! j)"
    and "\<And>j. i \<le> j \<Longrightarrow> j < i + l \<Longrightarrow> isTerminal (txt ! j)"
    and "i + l < length txt \<Longrightarrow> \<not> isTerminal (txt ! (i + l))"
proof -
  let ?xs = "drop k txt"
  let ?ys = "drop i txt"
  let ?s = "length (takeWhile (\<lambda>c. \<not> isTerminal c) ?xs)"
  from assms have i: "i = k + ?s" and lt: "i < length txt"
    and l: "l = length (takeWhile isTerminal ?ys)"
    by (auto simp: regexExec_def Let_def split: if_splits)
  show "k \<le> i" using i by simp
  show "i < length txt" by (rule lt)
  have le: "l \<le> length ?ys" unfolding l by (rule length_takeWhile_le)
  then show "i + l \<le> length txt" using lt by simp
  have skipped: "\<not> isTerminal (txt ! j)" if "k \<le> j" "j < i" for j
  proof -
    have "j - k < ?s" using that i by simp
    then have "\<not> isTerminal (?xs ! (j - k))" by (rule takeWhile_nth_holds)
    then show ?thesis using that lt by simp
  qed
  then show "\<And>j. k \<le> j \<Longrightarrow> j < i \<Longrightarrow> \<not> isTerminal (txt ! j)" .
  have run: "isTerminal (txt ! j)" if "i \<le> j" "j < i + l" for j
  proof -
    have "j - i < length (takeWhile isTerminal ?ys)" using that l by simp
    then have "isTerminal (?ys ! (j - i))" by (rule takeWhile_nth_holds)
    then show ?thesis using that lt by simp
  qed
  then show "\<And>j. i \<le> j \<Longrightarrow> j < i + l \<Longrightarrow> isTerminal (txt ! j)" .
  have "?s < length ?xs" using i lt by simp
  then have "\<not> \<not> isTerminal (?xs ! ?s)" by (rule nth_length_takeWhile)
  then have first: "isTerminal (txt ! i)" using i lt by simp
  then have "takeWhile isTerminal ?ys \<noteq> []"
    using lt by (simp add: takeWhile_eq_Nil_iff hd_drop_conv_nth)
  then show "0 < l" using l by simp
  show "\<not> isTerminal (txt ! (i + l))" if "i + l < length txt"
  proof -
    have "length (takeWhile isTerminal ?ys) < length ?ys" using that l by simp
    then have "\<not> isTerminal (?ys ! length (takeWhile isTerminal ?ys))"
      by (rule nth_length_takeWhile)
    then show ?thesis using that l by simp
  qed
qed

lemma runEndsFrom_None:
  assumes "regexExec txt k = None"
  shows "runEndsFrom txt k = []"
proof -
  have "\<not> isRunEnd txt p" if "p \<in> set [Suc k ..< Suc (length txt)]" for p
  proof -
    from that have "k \<le> p - 1" "p - 1 < length txt" by auto
    from regexExec_None[OF assms this] show ?thesis by (simp add: isRunEnd_def)
  qed
  then show ?thesis unfolding runEndsFrom_def by (simp add: filter_empty_conv del: upt_Suc)
qed

lemma runEndsFrom_Some:
  assumes "regexExec txt k = Some (i, l)"
  shows "runEndsFrom txt k = (i + l) # runEndsFrom txt (i + l)"
proof -
  note r = regexExec_Some[OF assms]
  let ?e = "i + l"
  let ?n = "length txt"
  have ke: "k < ?e" and en: "?e \<le> ?n" using r(1,3,4) by simp_all
  have split: "[Suc k ..< Suc ?n] = [Suc k ..< ?e] @ ?e # [Suc ?e ..< Suc ?n]"
  proof -
    have "[Suc k ..< Suc ?n] = [Suc k ..< ?e] @ [?e ..< Suc ?n]"
      using ke en upt_add_eq_append[of "Suc k" ?e "Suc ?n - ?e"] by simp
    also have "[?e ..< Suc ?n] = ?e # [Suc ?e ..< Suc ?n]"
      using en by (simp add: upt_conv_Cons del: upt_Suc)
    finally show ?thesis .
  qed
  have before: "\<not> isRunEnd txt p" if "p \<in> set [Suc k ..< ?e]" for p
  proof (cases "p \<le> i")
    case True
    with that have "k \<le> p - 1" "p - 1 < i" by auto
    from r(5)[OF this] show ?thesis by (simp add: isRunEnd_def)
  next
    case False
    with that have "i \<le> p" "p < ?e" by auto
    from r(6)[OF this] \<open>p < ?e\<close> en show ?thesis by (simp add: isRunEnd_def)
  qed
  have "i \<le> ?e - 1" "?e - 1 < ?e" using r(3) by simp_all
  from r(6)[OF this] have "isTerminal (txt ! (?e - 1))" .
  moreover have "?e = ?n \<or> \<not> isTerminal (txt ! ?e)" using r(7) en by auto
  ultimately have at: "isRunEnd txt ?e" using ke en r(3) by (simp add: isRunEnd_def)
  have "filter (isRunEnd txt) [Suc k ..< ?e] = []"
    using before by (simp add: filter_empty_conv)
  then show ?thesis unfolding runEndsFrom_def split using at by simp
qed

lemma sentencesOf_Cons:
  "sentencesOf txt (bounds # rest)
     = (if trim (substring txt (fst bounds) (snd bounds)) \<noteq> [] then [sentenceOf txt bounds] else [])
       @ sentencesOf txt rest"
  by (simp add: sentencesOf_def sentenceOf_def)

lemma splitLoop_spec:
  "withTrailing str (splitLoop str k acc) = acc @ sentencesOf str (spansFrom str k)"
proof (induction str k acc rule: splitLoop.induct)
  case (1 str lastEnd sentences)
  show ?case
  proof (cases "regexExec str lastEnd")
    case None
    have spans: "spansFrom str lastEnd = [(lastEnd, length str)]"
      by (simp add: spansFrom_def runEndsFrom_None[OF None])
    have loop: "splitLoop str lastEnd sentences = (sentences, lastEnd)"
      by (subst splitLoop.simps) (simp add: None)
    have "substring str lastEnd (length str) = drop lastEnd str"
      by (simp add: substring_def)
    moreover have "trim (drop lastEnd str) = []" if "\<not> lastEnd < length str"
      using that by (simp add: trim_def)
    ultimately show ?thesis
      unfolding loop spans by (auto simp: withTrailing_def sentencesOf_def sentenceOf_def)
  next
    case (Some m)
    obtain i l where m: "m = (i, l)" by (cases m)
    let ?t = "trim (substring str lastEnd (i + l))"
    let ?acc = "if length ?t > 0
                then sentences @ [\<lparr> sent_text = ?t, sent_start = lastEnd, sent_end = i + l \<rparr>]
                else sentences"
    have ex: "regexExec str lastEnd = Some (i, l)" using Some m by simp
    have spans: "spansFrom str lastEnd = (lastEnd, i + l) # spansFrom str (i + l)"
      by (simp add: spansFrom_def runEndsFrom_Some[OF ex])
    have loop: "splitLoop str lastEnd sentences = splitLoop str (i + l) ?acc"
      by (subst splitLoop.simps) (simp add: ex Let_def)
    have "withTrailing str (splitLoop str (i + l) ?acc) = ?acc @ sentencesOf str (spansFrom str (i + l))"
      using "1.IH"[OF Some m[symmetric] refl] .
    then show ?thesis
      unfolding loop spans by (simp add: sentencesOf_Cons sentenceOf_def)
  qed
qed

text \<open>
  C2 (sentence segmentation). For every string, \<open>splitIntoSentences\<close> returns, in
  order, one sentence for each span that ends with a run of \<open>.\<close>, \<open>!\<close>, \<open>?\<close> and one for
  the text after the last run: its text is the trimmed substring of the span, from the
  end of the previous run (or the start of the text) through the end of the run, its
  offsets are the span's, and a span of white space only gives no sentence.
\<close>

theorem splitIntoSentences_segments:
  "splitIntoSentences txt = segment_spec txt"
proof (cases "txt = []")
  case True
  then show ?thesis
    by (simp add: splitIntoSentences_def segment_spec_def sentencesOf_def sentenceOf_def
        spansFrom_def runEndsFrom_def substring_def trim_def)
next
  case False
  then have "splitIntoSentences txt = withTrailing txt (splitLoop txt 0 [])"
    by (simp add: splitIntoSentences_def withTrailing_def split_beta Let_def)
  then show ?thesis by (simp add: splitLoop_spec segment_spec_def)
qed

lemmas split_eval =
  splitIntoSentences_def splitLoop.simps regexExec_def substring_def trim_def Let_def char_defs

lemma sample_segments:
  "splitIntoSentences (js ''Hi?! ... ok  '') =
     [\<lparr> sent_text = js ''Hi?!'', sent_start = 0, sent_end = 4 \<rparr>,
      \<lparr> sent_text = js ''...'', sent_start = 4, sent_end = 8 \<rparr>,
      \<lparr> sent_text = js ''ok'', sent_start = 8, sent_end = 13 \<rparr>]"
  "splitIntoSentences (js ''a.   '') = [\<lparr> sent_text = js ''a.'', sent_start = 0, sent_end = 2 \<rparr>]"
  by (simp_all add: split_eval)

theorem splitIntoSentences_segments_witness:
  "segment_spec (js ''Hi?! ... ok  '') =
     [\<lparr> sent_text = js ''Hi?!'', sent_start = 0, sent_end = 4 \<rparr>,
      \<lparr> sent_text = js ''...'', sent_start = 4, sent_end = 8 \<rparr>,
      \<lparr> sent_text = js ''ok'', sent_start = 8, sent_end = 13 \<rparr>]
   \<and> segment_spec (js ''a.   '') = [\<lparr> sent_text = js ''a.'', sent_start = 0, sent_end = 2 \<rparr>]"
  using splitIntoSentences_segments[of "js ''Hi?! ... ok  ''"]
    splitIntoSentences_segments[of "js ''a.   ''"] sample_segments
  by simp

section \<open>Properties of the click resolution\<close>

lemma findStartSentence_none:
  "\<forall>s \<in> set ss. \<not> matchesClicked s c \<Longrightarrow> findStartSentence c ss i = 0"
  by (induction ss arbitrary: i) simp_all

lemma findStartSentence_first:
  assumes "j < length ss" and "matchesClicked (ss ! j) c"
    and "\<forall>k < j. \<not> matchesClicked (ss ! k) c"
  shows "findStartSentence c ss i = i + j"
  using assms
proof (induction ss arbitrary: i j)
  case Nil
  then show ?case by simp
next
  case (Cons s ss)
  show ?case
  proof (cases j)
    case 0
    with Cons.prems show ?thesis by simp
  next
    case (Suc j')
    with Cons.prems have "\<not> matchesClicked s c" by auto
    moreover have "findStartSentence c ss (i + 1) = (i + 1) + j'"
      using Cons.prems Suc by (intro Cons.IH) auto
    ultimately show ?thesis using Suc by simp
  qed
qed

lemma sample_article:
  "splitIntoSentences (js ''Yes. Oh Yes.'') =
     [\<lparr> sent_text = js ''Yes.'', sent_start = 0, sent_end = 4 \<rparr>,
      \<lparr> sent_text = js ''Oh Yes.'', sent_start = 4, sent_end = 12 \<rparr>]"
  by (simp add: split_eval)

text \<open>
  Where no sentence passes the test the resolution starts at index 0 and reads all the
  sentences, joined by single spaces; where there is no clicked text it starts at index
  0 and reads the article text as it is.
\<close>

lemma click_fallback:
  assumes "full \<noteq> []" and "all = splitIntoSentences full"
  shows "c \<noteq> [] \<Longrightarrow> \<forall>s \<in> set all. \<not> matchesClicked s c \<Longrightarrow>
           extractTextFromClick (Some full) (Some c) elementText info
             = (join_space (map sent_text all),
                Some \<lparr> startSentenceIndex = 0, sentences = all, fullArticleText = full,
                       clickedElement = EventTarget \<rparr>)"
    and "falsy clicked \<Longrightarrow>
           extractTextFromClick (Some full) clicked elementText info
             = (full,
                Some \<lparr> startSentenceIndex = 0, sentences = all, fullArticleText = full,
                       clickedElement = DocumentBody \<rparr>)"
  using assms
  by (simp_all add: extractTextFromClick_def setupFullArticleReading_def Let_def
      findStartSentence_none)

text \<open>
  The scenario of the specification: in the article of three sentences a click on the
  second one, which no earlier sentence contains or is contained in, starts at index 1.
\<close>

lemma scenario_split: "splitIntoSentences scenario_article = scenario_sentences"
  by (simp add: scenario_article_def scenario_sentences_def split_eval)

lemma scenario_click:
  "extractTextFromClick (Some scenario_article) (Some (js ''Second one follows.'')) [] None
     = (js ''Second one follows. Third ends it!'',
        Some \<lparr> startSentenceIndex = 1, sentences = scenario_sentences,
               fullArticleText = scenario_article, clickedElement = EventTarget \<rparr>)"
proof -
  let ?c = "js ''Second one follows.''"
  have ne: "scenario_article \<noteq> []" "?c \<noteq> []"
    by (simp_all add: scenario_article_def js_def)
  have at1: "1 < length scenario_sentences" "matchesClicked (scenario_sentences ! 1) ?c"
    by (simp_all add: scenario_sentences_def matchesClicked_def)
  have "\<not> matchesClicked (scenario_sentences ! 0) ?c"
    by (simp add: scenario_sentences_def matchesClicked_def trim_def char_defs)
  then have before: "\<forall>k < 1. \<not> matchesClicked (scenario_sentences ! k) ?c" by simp
  have start: "findStartSentence ?c scenario_sentences 0 = 1"
    using findStartSentence_first[OF at1 before, of 0] by simp
  have rest: "join_space (map sent_text (drop (Suc 0) scenario_sentences))
      = js ''Second one follows. Third ends it!''"
    by (simp add: scenario_sentences_def js_def)
  show ?thesis using ne
    by (simp add: extractTextFromClick_def scenario_split start rest Let_def)
qed

text \<open>
  C1 at a concrete input. In the article \<open>Yes. Oh Yes.\<close> the clicked text \<open>Oh Yes.\<close>
  is exactly the sentence at index 1. The loop tests equality and containment in one
  condition and stops at the first sentence that passes: the sentence at index 0,
  \<open>Yes.\<close>, is contained in the clicked text, so the resolution starts at index 0 and
  reads the whole article, although a later sentence matches exactly.
\<close>

theorem click_exact_match_preempted:
  "sent_text (splitIntoSentences (js ''Yes. Oh Yes.'') ! 1) = js ''Oh Yes.''
   \<and> map_option startSentenceIndex
        (snd (extractTextFromClick (Some (js ''Yes. Oh Yes.'')) (Some (js ''Oh Yes.'')) [] None))
       = Some 0
   \<and> fst (extractTextFromClick (Some (js ''Yes. Oh Yes.'')) (Some (js ''Oh Yes.'')) [] None)
       = js ''Yes. Oh Yes.''"
proof -
  have ne: "js ''Yes. Oh Yes.'' \<noteq> []" "js ''Oh Yes.'' \<noteq> []" by (simp_all add: js_def)
  have m: "matchesClicked \<lparr> sent_text = js ''Yes.'', sent_start = 0, sent_end = 4 \<rparr> (js ''Oh Yes.'')"
    by (simp add: matchesClicked_def trim_def char_defs)
  show ?thesis using ne m
    by (simp add: extractTextFromClick_def sample_article Let_def) (simp add: js_def)
qed

end
